theory Spec2Isabelle
  imports Main "HOL-Library.Sublist"
begin

section \<open>markupify: the page builder of \<^verbatim>\<open>markupify/page.py\<close>\<close>

text \<open>
  The class \<^verbatim>\<open>HTMLPage\<close> owns a head and a body element and renders them into one
  document string. The theory embeds its methods as functions on a record of the
  object's attributes: a method that assigns to \<^verbatim>\<open>self\<close> returns the updated record
  next to its result, a raise is the left injection of a sum.
\<close>

subsection \<open>Python values, truthiness and string conversion\<close>

text \<open>
  The exceptions that occur. The classes are kept apart as Python's handlers see them:
  \<^verbatim>\<open>OSError\<close> stands for \<^verbatim>\<open>OSError\<close> and its subclasses (a missing directory, no permission),
  \<^verbatim>\<open>UnicodeEncodeError\<close> is a \<^verbatim>\<open>ValueError\<close> in Python and not an \<^verbatim>\<open>OSError\<close>.
\<close>

datatype py_error =
  TypeError | AttributeError | KeyError | IndexError | ValueError | UnicodeEncodeError | OSError

text \<open>
  Modelled from the spec: the module \<^verbatim>\<open>markupify/tags.py\<close> (classes \<^verbatim>\<open>Element\<close>, \<^verbatim>\<open>Html\<close>,
  \<^verbatim>\<open>Head\<close>, \<^verbatim>\<open>Body\<close>, \<^verbatim>\<open>DocType\<close>) is not among the sources. The spec describes an
  Element as a value with a tag name, an inner content string and a key/value attribute
  map kept in insertion order.
\<close>

record element =
  tag_name :: string
  tag_content :: string
  props :: "(string \<times> string) list"

text \<open>
  The values passed as initial head/body and as content to \<^verbatim>\<open>pretty\<close>: \<^verbatim>\<open>None\<close>, a \<^verbatim>\<open>str\<close>,
  or an Element (the annotations say \<^verbatim>\<open>Optional[Head]\<close> and \<^verbatim>\<open>Optional[Union[str, Element]]\<close>).
\<close>

datatype pyval = PyNone | PyStr string | PyElem element

definition dq :: string where
  "dq = [CHR 0x22]"

text \<open>
  Modelled from the spec: the string form of an attribute map and of an Element, which
  \<^verbatim>\<open>tags.py\<close> would define. The spec fixes the open-tag/content/close-tag contract, the
  shape \<^verbatim>\<open><html lang="..."></html>\<close> and the insertion order of the attributes.
\<close>

fun props_str :: "(string \<times> string) list \<Rightarrow> string" where
  "props_str [] = []"
| "props_str ((k, v) # kvs) = '' '' @ k @ ''='' @ dq @ v @ dq @ props_str kvs"

definition Element_str :: "element \<Rightarrow> string" where
  "Element_str e =
     ''<'' @ tag_name e @ props_str (props e) @ ''>'' @ tag_content e @ ''</'' @ tag_name e @ ''>''"

text \<open>
  Modelled from the spec: the constructors of \<^verbatim>\<open>tags.py\<close>. \<^verbatim>\<open>Head(tag_content=c, **props)\<close>
  is the Element named \<^verbatim>\<open>head\<close> with that content and those attributes; the docstring
  of \<^verbatim>\<open>HTMLPage.__init__\<close> gives the defaults \<^verbatim>\<open><head></head>\<close> and \<^verbatim>\<open><body></body>\<close>, so the
  content defaults to the empty string.
\<close>

definition Head :: "string \<Rightarrow> (string \<times> string) list \<Rightarrow> element" where
  "Head c kw = \<lparr>tag_name = ''head'', tag_content = c, props = kw\<rparr>"

definition Body :: "string \<Rightarrow> (string \<times> string) list \<Rightarrow> element" where
  "Body c kw = \<lparr>tag_name = ''body'', tag_content = c, props = kw\<rparr>"

definition Html :: "string \<Rightarrow> (string \<times> string) list \<Rightarrow> element" where
  "Html c kw = \<lparr>tag_name = ''html'', tag_content = c, props = kw\<rparr>"

text \<open>\<^verbatim>\<open>str(x)\<close>: \<^verbatim>\<open>str(None)\<close> is the four characters \<^verbatim>\<open>None\<close>.\<close>

fun py_str :: "pyval \<Rightarrow> string" where
  "py_str PyNone = ''None''"
| "py_str (PyStr s) = s"
| "py_str (PyElem e) = Element_str e"

text \<open>
  \<^verbatim>\<open>bool(x)\<close>: \<^verbatim>\<open>None\<close> and the empty string are falsy. Modelled from the spec: an
  Element is a plain value object (no \<^verbatim>\<open>__bool__\<close>, no \<^verbatim>\<open>__len__\<close>), so it is truthy.
\<close>

fun py_bool :: "pyval \<Rightarrow> bool" where
  "py_bool PyNone = False"
| "py_bool (PyStr s) = (s \<noteq> [])"
| "py_bool (PyElem e) = True"

subsection \<open>\<^verbatim>\<open>str.format\<close> on the page template\<close>

text \<open>
  \<^verbatim>\<open>template.format(**kw)\<close> for templates made of literal text, the escapes \<^verbatim>\<open>{{\<close> and
  \<^verbatim>\<open>}}\<close>, and replacement fields \<^verbatim>\<open>{name}\<close> with a plain name. The second argument is
  the name of the field being read, if any. A name that is not a keyword raises KeyError,
  the empty name asks for a positional argument and raises IndexError (none is passed),
  an unmatched brace raises ValueError.
\<close>

fun str_format :: "string \<Rightarrow> string option \<Rightarrow> (string \<times> string) list \<Rightarrow> py_error + string" where
  "str_format [] None kw = Inr []"
| "str_format [] (Some n) kw = Inl ValueError"
| "str_format (c # cs) (Some n) kw =
     (if c = CHR ''}'' then
        (if n = [] then Inl IndexError
         else case map_of kw n of
           None \<Rightarrow> Inl KeyError
         | Some v \<Rightarrow> (case str_format cs None kw of Inl e \<Rightarrow> Inl e | Inr s \<Rightarrow> Inr (v @ s)))
      else str_format cs (Some (n @ [c])) kw)"
| "str_format (c # cs) None kw =
     (if c = CHR ''{'' then
        (case cs of
           [] \<Rightarrow> Inl ValueError
         | d # ds \<Rightarrow>
             if d = CHR ''{'' then
               (case str_format ds None kw of Inl e \<Rightarrow> Inl e | Inr s \<Rightarrow> Inr (c # s))
             else str_format cs (Some []) kw)
      else if c = CHR ''}'' then
        (case cs of
           [] \<Rightarrow> Inl ValueError
         | d # ds \<Rightarrow>
             if d = CHR ''}'' then
               (case str_format ds None kw of Inl e \<Rightarrow> Inl e | Inr s \<Rightarrow> Inr (c # s))
             else Inl ValueError)
      else (case str_format cs None kw of Inl e \<Rightarrow> Inl e | Inr s \<Rightarrow> Inr (c # s)))"

subsection \<open>The page object\<close>

text \<open>
  The attributes of an \<^verbatim>\<open>HTMLPage\<close>. \<^verbatim>\<open>__init__\<close> calls \<^verbatim>\<open>set_head\<close> on the object before
  \<^verbatim>\<open>head\<close> and \<^verbatim>\<open>body\<close> exist, so these two are optional: \<open>None\<close> is an attribute that
  has not been assigned yet, and reading it raises AttributeError.
\<close>

record page =
  lang :: string
  template :: string
  head :: "element option"
  body :: "element option"

text \<open>What \<^verbatim>\<open>prettify\<close> returns: a \<^verbatim>\<open>str\<close>, or \<^verbatim>\<open>bytes\<close> when an encoding is given.\<close>

datatype py_text = Str string | Bytes string

text \<open>
  What the page calls outside the repository's sources: the string form of \<^verbatim>\<open>DocType()\<close>
  (the spec calls it a constant doctype declaration token and gives no literal); what
  \<^verbatim>\<open>BeautifulSoup(markup, "html.parser").prettify(encoding, formatter)\<close> returns or raises
  for a markup string; and the exception, if any, with which the operating system and the
  file object answer \<^verbatim>\<open>open(path, "w")\<close>, \<^verbatim>\<open>f.write(s)\<close> and the closing of the file.
\<close>

record env =
  DocType_str :: string
  prettify :: "string \<Rightarrow> string option \<Rightarrow> string \<Rightarrow> py_error + py_text"
  open_error :: "string \<Rightarrow> py_error option"
  write_error :: "string \<Rightarrow> string \<Rightarrow> py_error option"
  close_error :: "string \<Rightarrow> py_error option"

text \<open>
  A fragment is an object that \<^verbatim>\<open>set_head\<close>, \<^verbatim>\<open>set_body\<close>, \<^verbatim>\<open>add_tag_to_head\<close> or
  \<^verbatim>\<open>add_tag_to_body\<close> converts with \<^verbatim>\<open>str(tag)\<close>. The conversion changes nothing (the spec's
  string-conversion contract), but what it returns can depend on the page as it is when
  the conversion runs: the page's own head and body, the page itself (\<^verbatim>\<open>__str__\<close> is
  \<^verbatim>\<open>render\<close>) and any object that holds one of them are such fragments. So a fragment is
  given by its string form, or the exception of the conversion, as a function of the page
  state; \<open>tag self\<close> stands for \<^verbatim>\<open>str(tag)\<close> evaluated in the state \<open>self\<close>.
\<close>

type_synonym fragment = "page \<Rightarrow> py_error + string"

text \<open>An object whose string form does not involve the page: \<^verbatim>\<open>None\<close>, a string, an Element.\<close>

definition Value :: "pyval \<Rightarrow> fragment" where
  "Value v = (\<lambda>self. Inr (py_str v))"

text \<open>The page's current head and body, as the caller gets them from \<^verbatim>\<open>page.head\<close>, \<^verbatim>\<open>page.body\<close>.\<close>

definition TheHead :: fragment where
  "TheHead = (\<lambda>self. case head self of None \<Rightarrow> Inl AttributeError | Some h \<Rightarrow> Inr (Element_str h))"

definition TheBody :: fragment where
  "TheBody = (\<lambda>self. case body self of None \<Rightarrow> Inl AttributeError | Some b \<Rightarrow> Inr (Element_str b))"

text \<open>
  Python binds keyword arguments by name. \<^verbatim>\<open>set_head(self, *args, **props)\<close> cannot take
  a keyword \<^verbatim>\<open>self\<close>, and \<^verbatim>\<open>Head(tag_content=content, **props)\<close> gets \<^verbatim>\<open>tag_content\<close> twice
  when \<^verbatim>\<open>props\<close> has that key: both calls raise TypeError.
\<close>

definition kw_has :: "(string \<times> string) list \<Rightarrow> string \<Rightarrow> bool" where
  "kw_has kw k = (k \<in> set (map fst kw))"

definition kw_clash :: "(string \<times> string) list \<Rightarrow> bool" where
  "kw_clash kw = (kw_has kw ''self'' \<or> kw_has kw ''tag_content'')"

text \<open>
  The loop \<^verbatim>\<open>content = ""; for tag in args: content += str(tag)\<close> of \<^verbatim>\<open>set_head\<close> and
  \<^verbatim>\<open>set_body\<close>. A method returns its result or exception together with the page as the
  call leaves it.
\<close>

fun concat_tags :: "page \<Rightarrow> string \<Rightarrow> fragment list \<Rightarrow> py_error + string" where
  "concat_tags self content [] = Inr content"
| "concat_tags self content (tag # args) =
     (case tag self of
        Inl e \<Rightarrow> Inl e
      | Inr s \<Rightarrow> concat_tags self (content @ s) args)"

definition set_head :: "fragment list \<Rightarrow> (string \<times> string) list \<Rightarrow> page \<Rightarrow> (py_error + element) \<times> page" where
  "set_head args kw self =
     (if kw_has kw ''self'' then (Inl TypeError, self)
      else case concat_tags self [] args of
        Inl e \<Rightarrow> (Inl e, self)
      | Inr content \<Rightarrow>
          if kw_has kw ''tag_content'' then (Inl TypeError, self)
          else let h = Head content kw; self = self\<lparr>head := Some h\<rparr> in (Inr h, self))"

definition set_body :: "fragment list \<Rightarrow> (string \<times> string) list \<Rightarrow> page \<Rightarrow> (py_error + element) \<times> page" where
  "set_body args kw self =
     (if kw_has kw ''self'' then (Inl TypeError, self)
      else case concat_tags self [] args of
        Inl e \<Rightarrow> (Inl e, self)
      | Inr content \<Rightarrow>
          if kw_has kw ''tag_content'' then (Inl TypeError, self)
          else let b = Body content kw; self = self\<lparr>body := Some b\<rparr> in (Inr b, self))"

text \<open>
  \<^verbatim>\<open>__init__\<close>: the conditional expression calls \<^verbatim>\<open>set_head(head)\<close> when \<^verbatim>\<open>bool(head)\<close> is
  false and builds \<^verbatim>\<open>Head()\<close> otherwise; its value is then assigned to \<^verbatim>\<open>self.head\<close>. The
  page does not exist before the call, so the arguments do not involve it.
\<close>

definition HTMLPage_init :: "pyval \<Rightarrow> pyval \<Rightarrow> string \<Rightarrow> py_error + page" where
  "HTMLPage_init head_arg body_arg lang_arg =
     (let self = \<lparr>lang = lang_arg, template = ''{doc_type}{html}'', head = None, body = None\<rparr> in
      case (if \<not> py_bool head_arg then set_head [Value head_arg] [] self
            else (Inr (Head [] []), self)) of
        (Inl e, self) \<Rightarrow> Inl e
      | (Inr h, self) \<Rightarrow>
          (let self = self\<lparr>head := Some h\<rparr> in
           case (if \<not> py_bool body_arg then set_body [Value body_arg] [] self
                 else (Inr (Body [] []), self)) of
             (Inl e, self) \<Rightarrow> Inl e
           | (Inr b, self) \<Rightarrow> Inr (self\<lparr>body := Some b\<rparr>)))"

text \<open>
  The methods and properties that follow assign nothing in the source; like the others
  they return the page next to their result, so that this is a statement about them.
  The property \<^verbatim>\<open>html\<close>: \<^verbatim>\<open>Html(tag_content=f"{self.head}{self.body}", lang=self.lang)\<close>.
\<close>

definition html :: "page \<Rightarrow> (py_error + element) \<times> page" where
  "html self =
     (case head self of
        None \<Rightarrow> (Inl AttributeError, self)
      | Some h \<Rightarrow>
          (case body self of
             None \<Rightarrow> (Inl AttributeError, self)
           | Some b \<Rightarrow> (Inr (Html (Element_str h @ Element_str b) [(''lang'', lang self)]), self)))"

text \<open>The property \<^verbatim>\<open>doc_type\<close> builds a \<^verbatim>\<open>DocType()\<close>; the page only uses its string form.\<close>

definition doc_type :: "env \<Rightarrow> page \<Rightarrow> string \<times> page" where
  "doc_type E self = (DocType_str E, self)"

text \<open>
  \<^verbatim>\<open>render\<close>: the arguments \<^verbatim>\<open>self.doc_type\<close> and \<^verbatim>\<open>self.html\<close> are evaluated in this order,
  then \<^verbatim>\<open>self.template.format\<close> is applied to their string forms.
\<close>

definition render :: "env \<Rightarrow> page \<Rightarrow> (py_error + string) \<times> page" where
  "render E self =
     (case doc_type E self of
        (d, self) \<Rightarrow>
          (case html self of
             (Inl e, self) \<Rightarrow> (Inl e, self)
           | (Inr h, self) \<Rightarrow>
               (str_format (template self) None [(''doc_type'', d), (''html'', Element_str h)], self)))"

definition page_str :: "env \<Rightarrow> page \<Rightarrow> (py_error + string) \<times> page" where
  "page_str E self = render E self"

definition page_repr :: "env \<Rightarrow> page \<Rightarrow> (py_error + string) \<times> page" where
  "page_repr E self = render E self"

text \<open>The page itself as a fragment: \<^verbatim>\<open>str(page)\<close> is \<^verbatim>\<open>page.__str__()\<close>, the rendering.\<close>

definition ThePage :: "env \<Rightarrow> fragment" where
  "ThePage E = (\<lambda>self. fst (page_str E self))"

text \<open>
  \<^verbatim>\<open>BeautifulSoup(markup, "html.parser").prettify(encoding, formatter)\<close>. The constructor
  takes a string (also bytes or an open file, which the signature of \<^verbatim>\<open>pretty\<close> does not
  admit); for another object it raises TypeError, an Element having neither a \<^verbatim>\<open>read\<close>
  method nor a length.
\<close>

definition BeautifulSoup_prettify :: "env \<Rightarrow> pyval \<Rightarrow> string option \<Rightarrow> string \<Rightarrow> py_error + py_text" where
  "BeautifulSoup_prettify E markup encoding formatter =
     (case markup of
        PyStr s \<Rightarrow> prettify E s encoding formatter
      | PyNone \<Rightarrow> Inl TypeError
      | PyElem e \<Rightarrow> Inl TypeError)"

text \<open>
  \<^verbatim>\<open>pretty\<close>: the first argument is \<open>None\<close> when the caller passes no \<^verbatim>\<open>html_content\<close>,
  which then takes its default, the empty string. The content goes to BeautifulSoup as
  it is, without \<^verbatim>\<open>str()\<close>.
\<close>

definition pretty :: "env \<Rightarrow> page \<Rightarrow> pyval option \<Rightarrow> string option \<Rightarrow> string \<Rightarrow> (py_error + py_text) \<times> page" where
  "pretty E self arg encoding formatter =
     (let html_content = (case arg of None \<Rightarrow> PyStr [] | Some v \<Rightarrow> v) in
      if \<not> py_bool html_content then
        (case render E self of
           (Inl e, self) \<Rightarrow> (Inl e, self)
         | (Inr s, self) \<Rightarrow> (BeautifulSoup_prettify E (PyStr s) encoding formatter, self))
      else (BeautifulSoup_prettify E html_content encoding formatter, self))"

text \<open>
  The loop \<^verbatim>\<open>for tag in args: self.head.tag_content += str(tag)\<close>: each round reads
  \<^verbatim>\<open>self.head\<close>, converts the fragment and stores the longer content in the same object.
  A round that raises leaves what the rounds before it appended.
\<close>

fun add_tag_to_head_loop :: "fragment list \<Rightarrow> page \<Rightarrow> (py_error + unit) \<times> page" where
  "add_tag_to_head_loop [] self = (Inr (), self)"
| "add_tag_to_head_loop (tag # args) self =
     (case head self of
        None \<Rightarrow> (Inl AttributeError, self)
      | Some h \<Rightarrow>
          (case tag self of
             Inl e \<Rightarrow> (Inl e, self)
           | Inr s \<Rightarrow>
               add_tag_to_head_loop args
                 (self\<lparr>head := Some (h\<lparr>tag_content := tag_content h @ s\<rparr>)\<rparr>)))"

definition add_tag_to_head :: "fragment list \<Rightarrow> page \<Rightarrow> (py_error + element) \<times> page" where
  "add_tag_to_head args self =
     (case add_tag_to_head_loop args self of
        (Inl e, self) \<Rightarrow> (Inl e, self)
      | (Inr u, self) \<Rightarrow>
          (case head self of None \<Rightarrow> (Inl AttributeError, self) | Some h \<Rightarrow> (Inr h, self)))"

fun add_tag_to_body_loop :: "fragment list \<Rightarrow> page \<Rightarrow> (py_error + unit) \<times> page" where
  "add_tag_to_body_loop [] self = (Inr (), self)"
| "add_tag_to_body_loop (tag # args) self =
     (case body self of
        None \<Rightarrow> (Inl AttributeError, self)
      | Some b \<Rightarrow>
          (case tag self of
             Inl e \<Rightarrow> (Inl e, self)
           | Inr s \<Rightarrow>
               add_tag_to_body_loop args
                 (self\<lparr>body := Some (b\<lparr>tag_content := tag_content b @ s\<rparr>)\<rparr>)))"

definition add_tag_to_body :: "fragment list \<Rightarrow> page \<Rightarrow> (py_error + element) \<times> page" where
  "add_tag_to_body args self =
     (case add_tag_to_body_loop args self of
        (Inl e, self) \<Rightarrow> (Inl e, self)
      | (Inr u, self) \<Rightarrow>
          (case body self of None \<Rightarrow> (Inl AttributeError, self) | Some b \<Rightarrow> (Inr b, self)))"

subsection \<open>Writing the page to a file\<close>

text \<open>
  The part of the operating system that \<^verbatim>\<open>write\<close> touches: the text files by path and the
  file objects that are open (a file object is identified with its path here). The
  built-ins follow Python. \<^verbatim>\<open>open(path, "w")\<close> raises ValueError for a path with a NUL
  character before it asks the operating system, raises what the operating system
  answers (an OSError for a missing directory or a refused permission), or creates or
  truncates the file and returns an open file object. \<^verbatim>\<open>f.write(s)\<close> on a text file raises
  TypeError for bytes, raises what encoding and writing give (UnicodeEncodeError for a
  string the file's encoding cannot take, OSError from the system), or appends the string.
  Closing flushes, which can raise as well, and drops the file object from the open ones
  in either case.
\<close>

record os_state =
  files :: "string \<Rightarrow> string option"
  opened :: "string list"

definition py_open_w :: "env \<Rightarrow> string \<Rightarrow> os_state \<Rightarrow> py_error + os_state" where
  "py_open_w E path os =
     (if CHR 0x00 \<in> set path then Inl ValueError
      else case open_error E path of
        Some e \<Rightarrow> Inl e
      | None \<Rightarrow> Inr (os\<lparr>files := (files os)(path \<mapsto> []), opened := path # opened os\<rparr>))"

definition file_write :: "env \<Rightarrow> string \<Rightarrow> py_text \<Rightarrow> os_state \<Rightarrow> py_error + os_state" where
  "file_write E path txt os =
     (case txt of
        Bytes bs \<Rightarrow> Inl TypeError
      | Str s \<Rightarrow>
          (case write_error E path s of
             Some e \<Rightarrow> Inl e
           | None \<Rightarrow>
               Inr (os\<lparr>files := (files os)(path \<mapsto>
                      (case files os path of None \<Rightarrow> s | Some old \<Rightarrow> old @ s))\<rparr>)))"

definition file_close :: "env \<Rightarrow> string \<Rightarrow> os_state \<Rightarrow> py_error option \<times> os_state" where
  "file_close E path os = (close_error E path, os\<lparr>opened := remove1 path (opened os)\<rparr>)"

text \<open>
  \<^verbatim>\<open>with open(filename, "w") as f: f.write(self.pretty())\<close>. When \<^verbatim>\<open>open\<close> raises, the block
  is not entered. Inside the block \<^verbatim>\<open>self.pretty()\<close> is evaluated first, then \<^verbatim>\<open>f.write\<close>;
  the file object's \<^verbatim>\<open>__exit__\<close> closes it whether the block ends normally or raises, and
  does not swallow the exception; an exception of the closing itself is the one the
  caller sees. The method \<^verbatim>\<open>write\<close> is named \<open>write_file\<close> here.
\<close>

definition write_file :: "env \<Rightarrow> page \<Rightarrow> string \<Rightarrow> os_state \<Rightarrow> (py_error + unit) \<times> page \<times> os_state" where
  "write_file E self filename os =
     (case py_open_w E filename os of
        Inl e \<Rightarrow> (Inl e, self, os)
      | Inr os1 \<Rightarrow>
          (case pretty E self None None ''minimal'' of
             (p, self) \<Rightarrow>
               (case (case p of
                        Inl e \<Rightarrow> (Inl e, os1)
                      | Inr txt \<Rightarrow>
                          (case file_write E filename txt os1 of
                             Inl e \<Rightarrow> (Inl e, os1)
                           | Inr os2 \<Rightarrow> (Inr (), os2))) of
                  (r, os2) \<Rightarrow>
                    (case file_close E filename os2 of
                       (Some e, os3) \<Rightarrow> (Inl e, self, os3)
                     | (None, os3) \<Rightarrow> (r, self, os3)))))"

subsection \<open>A client calling the methods in sequence\<close>

datatype call =
    SetHead "fragment list" "(string \<times> string) list"
  | SetBody "fragment list" "(string \<times> string) list"
  | AddTagToHead "fragment list"
  | AddTagToBody "fragment list"
  | Render
  | Pretty "pyval option" "string option" string
  | Write string

datatype ret = RetElem element | RetStr string | RetText py_text | RetNone

text \<open>One method call on the page: its result or exception, and the page and the files afterwards.\<close>

fun invoke :: "env \<Rightarrow> call \<Rightarrow> page \<times> os_state \<Rightarrow> (py_error + ret) \<times> page \<times> os_state" where
  "invoke E (SetHead args kw) (self, os) =
     (case set_head args kw self of
        (Inl e, self') \<Rightarrow> (Inl e, self', os) | (Inr h, self') \<Rightarrow> (Inr (RetElem h), self', os))"
| "invoke E (SetBody args kw) (self, os) =
     (case set_body args kw self of
        (Inl e, self') \<Rightarrow> (Inl e, self', os) | (Inr b, self') \<Rightarrow> (Inr (RetElem b), self', os))"
| "invoke E (AddTagToHead args) (self, os) =
     (case add_tag_to_head args self of
        (Inl e, self') \<Rightarrow> (Inl e, self', os) | (Inr h, self') \<Rightarrow> (Inr (RetElem h), self', os))"
| "invoke E (AddTagToBody args) (self, os) =
     (case add_tag_to_body args self of
        (Inl e, self') \<Rightarrow> (Inl e, self', os) | (Inr b, self') \<Rightarrow> (Inr (RetElem b), self', os))"
| "invoke E Render (self, os) =
     (case render E self of
        (Inl e, self') \<Rightarrow> (Inl e, self', os) | (Inr s, self') \<Rightarrow> (Inr (RetStr s), self', os))"
| "invoke E (Pretty arg encoding formatter) (self, os) =
     (case pretty E self arg encoding formatter of
        (Inl e, self') \<Rightarrow> (Inl e, self', os) | (Inr t, self') \<Rightarrow> (Inr (RetText t), self', os))"
| "invoke E (Write filename) (self, os) =
     (case write_file E self filename os of
        (Inl e, self', os') \<Rightarrow> (Inl e, self', os') | (Inr u, self', os') \<Rightarrow> (Inr RetNone, self', os'))"

text \<open>The calls in order; the client goes on after a call that raised.\<close>

fun run :: "env \<Rightarrow> call list \<Rightarrow> page \<times> os_state \<Rightarrow> page \<times> os_state" where
  "run E [] st = st"
| "run E (c # cs) st = run E cs (snd (invoke E c st))"

text \<open>
  The page states of the program: what the constructor returns, and what the four
  methods that assign to the page make of a page state, whether they return or raise
  (\<^verbatim>\<open>render\<close>, \<^verbatim>\<open>pretty\<close> and \<^verbatim>\<open>write\<close> return the page they got, as shown below).
\<close>

inductive page_state :: "page \<Rightarrow> bool" where
  constructed: "HTMLPage_init head_arg body_arg lang_arg = Inr self \<Longrightarrow> page_state self"
| after_set_head: "page_state self \<Longrightarrow> set_head args kw self = (r, self') \<Longrightarrow> page_state self'"
| after_set_body: "page_state self \<Longrightarrow> set_body args kw self = (r, self') \<Longrightarrow> page_state self'"
| after_add_tag_to_head:
    "page_state self \<Longrightarrow> add_tag_to_head args self = (r, self') \<Longrightarrow> page_state self'"
| after_add_tag_to_body:
    "page_state self \<Longrightarrow> add_tag_to_body args self = (r, self') \<Longrightarrow> page_state self'"

subsection \<open>Notions the properties are stated with\<close>

definition is_Head :: "element \<Rightarrow> bool" where
  "is_Head e = (tag_name e = ''head'')"

definition is_Body :: "element \<Rightarrow> bool" where
  "is_Body e = (tag_name e = ''body'')"

text \<open>The page has a head attribute holding a Head and a body attribute holding a Body.\<close>

definition owns_head_body :: "page \<Rightarrow> bool" where
  "owns_head_body self =
     ((case head self of None \<Rightarrow> False | Some h \<Rightarrow> is_Head h) \<and>
      (case body self of None \<Rightarrow> False | Some b \<Rightarrow> is_Body b))"

definition wf_page :: "page \<Rightarrow> bool" where
  "wf_page self = (template self = ''{doc_type}{html}'' \<and> owns_head_body self)"

text \<open>The calls of the methods that assign to the page or to one of its sections.\<close>

fun mutating :: "call \<Rightarrow> bool" where
  "mutating (SetHead args kw) = True"
| "mutating (SetBody args kw) = True"
| "mutating (AddTagToHead args) = True"
| "mutating (AddTagToBody args) = True"
| "mutating Render = False"
| "mutating (Pretty arg encoding formatter) = False"
| "mutating (Write filename) = False"

text \<open>
  The string forms of the fragments of a call, read in one page state: \<open>strs\<close> are the
  results of \<^verbatim>\<open>str(tag)\<close> for the fragments in order, none of them raising.
\<close>

definition str_forms :: "page \<Rightarrow> fragment list \<Rightarrow> string list \<Rightarrow> bool" where
  "str_forms self args strs = (map (\<lambda>tag. tag self) args = map Inr strs)"

text \<open>A fragment whose string form does not depend on the page's head, or on its body.\<close>

definition unaffected_by_head :: "fragment \<Rightarrow> bool" where
  "unaffected_by_head tag = (\<forall>self h. tag (self\<lparr>head := Some h\<rparr>) = tag self)"

definition unaffected_by_body :: "fragment \<Rightarrow> bool" where
  "unaffected_by_body tag = (\<forall>self b. tag (self\<lparr>body := Some b\<rparr>) = tag self)"

text \<open>The number of positions of a text at which a pattern starts.\<close>

fun count_occ :: "'a list \<Rightarrow> 'a list \<Rightarrow> nat" where
  "count_occ p [] = 0"
| "count_occ p (x # xs) = (if prefix p (x # xs) then 1 else 0) + count_occ p xs"

text \<open>
  A language code in the sense of the spec's "valid language codes": a non-empty tag of
  ASCII letters, digits and hyphens, as in \<^verbatim>\<open>en\<close>, \<^verbatim>\<open>fr\<close>, \<^verbatim>\<open>pt-BR\<close>.
\<close>

definition lang_char :: "char \<Rightarrow> bool" where
  "lang_char c = (c \<in> set ''abcdefghijklmnopqrstuvwxyzABCDEFGHIJKLMNOPQRSTUVWXYZ0123456789-'')"

definition valid_lang :: "string \<Rightarrow> bool" where
  "valid_lang l = (l \<noteq> [] \<and> list_all lang_char l)"

text \<open>The attribute text \<^verbatim>\<open>lang="L"\<close>.\<close>

definition lang_attr :: "string \<Rightarrow> string" where
  "lang_attr l = ''lang='' @ dq @ l @ dq"

text \<open>
  Concrete inputs for the instances below: a prettifier that returns its markup, as text
  or as bytes, a system that has no directory \<^verbatim>\<open>/nonexistent-dir\<close> and a disk that takes no
  more than twenty characters for \<^verbatim>\<open>/full/out.html\<close>.
\<close>

definition env0 :: env where
  "env0 = \<lparr>DocType_str = ''<!DOCTYPE html>'',
     prettify = (\<lambda>s encoding formatter.
        case encoding of None \<Rightarrow> Inr (Str s) | Some enc \<Rightarrow> Inr (Bytes s)),
     open_error = (\<lambda>path. if path = ''/nonexistent-dir/out.html'' then Some OSError else None),
     write_error = (\<lambda>path s. if path = ''/full/out.html'' \<and> 20 < length s then Some OSError else None),
     close_error = (\<lambda>path. None)\<rparr>"

definition os0 :: os_state where
  "os0 = \<lparr>files = (\<lambda>path. None), opened = []\<rparr>"

definition page0 :: page where
  "page0 = \<lparr>lang = ''en'', template = ''{doc_type}{html}'',
     head = Some (Head ''None'' []), body = Some (Body ''None'' [])\<rparr>"

definition page1 :: page where
  "page1 = page0\<lparr>body := Some (Body (''None<p '' @ lang_attr ''en'' @ ''>x</p>'') [])\<rparr>"


section \<open>Lemmas about the methods\<close>

subsection \<open>String forms\<close>

lemma Element_str_nonempty: "Element_str e \<noteq> []"
  by (simp add: Element_str_def)

lemma Value_apply: "Value v self = Inr (py_str v)"
  by (simp add: Value_def)

lemma TheHead_apply: "head self = Some h \<Longrightarrow> TheHead self = Inr (Element_str h)"
  by (simp add: TheHead_def)

lemma TheBody_apply: "body self = Some b \<Longrightarrow> TheBody self = Inr (Element_str b)"
  by (simp add: TheBody_def)

lemma unaffected_Value: "unaffected_by_head (Value v)" "unaffected_by_body (Value v)"
  by (simp_all add: unaffected_by_head_def unaffected_by_body_def Value_def)

lemma unaffected_TheBody: "unaffected_by_head TheBody"
  by (simp add: unaffected_by_head_def TheBody_def)

lemma unaffected_TheHead: "unaffected_by_body TheHead"
  by (simp add: unaffected_by_body_def TheHead_def)

lemma str_forms_Nil: "str_forms self [] strs \<longleftrightarrow> strs = []"
  by (auto simp: str_forms_def)

lemma str_forms_Cons:
  "str_forms self (tag # args) strs \<longleftrightarrow>
     (\<exists>s ss. strs = s # ss \<and> tag self = Inr s \<and> str_forms self args ss)"
  by (cases strs) (auto simp: str_forms_def)

lemma str_forms_Values: "str_forms self (map Value vs) (map py_str vs)"
  by (simp add: str_forms_def Value_def)

lemma concat_tags_str_forms:
  "str_forms self args strs \<Longrightarrow> concat_tags self content args = Inr (content @ concat strs)"
proof (induction args arbitrary: content strs)
  case Nil
  then show ?case by (simp add: str_forms_Nil)
next
  case (Cons tag args)
  then obtain s ss where "strs = s # ss" "tag self = Inr s" "str_forms self args ss"
    by (auto simp: str_forms_Cons)
  with Cons.IH [of ss "content @ s"] show ?case by simp
qed

lemma str_format_template:
  "str_format ''{doc_type}{html}'' None [(''doc_type'', d), (''html'', h)] = Inr (d @ h)"
  by simp

subsection \<open>The two setters\<close>

lemma set_head_ok:
  assumes "\<not> kw_clash kw" and "str_forms self args strs"
  shows "set_head args kw self =
     (Inr (Head (concat strs) kw), self\<lparr>head := Some (Head (concat strs) kw)\<rparr>)"
  using assms(1)
  by (simp add: set_head_def kw_clash_def concat_tags_str_forms [OF assms(2)] Let_def)

lemma set_body_ok:
  assumes "\<not> kw_clash kw" and "str_forms self args strs"
  shows "set_body args kw self =
     (Inr (Body (concat strs) kw), self\<lparr>body := Some (Body (concat strs) kw)\<rparr>)"
  using assms(1)
  by (simp add: set_body_def kw_clash_def concat_tags_str_forms [OF assms(2)] Let_def)

lemma set_head_raises:
  assumes "kw_clash kw \<or> concat_tags self [] args = Inl e"
  shows "\<exists>e'. set_head args kw self = (Inl e', self)"
  using assms by (auto simp: set_head_def kw_clash_def Let_def split: sum.splits)

lemma set_body_raises:
  assumes "kw_clash kw \<or> concat_tags self [] args = Inl e"
  shows "\<exists>e'. set_body args kw self = (Inl e', self)"
  using assms by (auto simp: set_body_def kw_clash_def Let_def split: sum.splits)

lemma set_head_cases:
  assumes "set_head args kw self = (r, self')"
  shows "self' = self \<or> (\<exists>c. self' = self\<lparr>head := Some (Head c kw)\<rparr>)"
  using assms by (auto simp: set_head_def Let_def split: if_splits sum.splits)

lemma set_body_cases:
  assumes "set_body args kw self = (r, self')"
  shows "self' = self \<or> (\<exists>c. self' = self\<lparr>body := Some (Body c kw)\<rparr>)"
  using assms by (auto simp: set_body_def Let_def split: if_splits sum.splits)

lemma set_head_Value:
  "set_head [Value v] [] self = (Inr (Head (py_str v) []), self\<lparr>head := Some (Head (py_str v) [])\<rparr>)"
  by (simp add: set_head_def kw_has_def Value_def Let_def)

lemma set_body_Value:
  "set_body [Value v] [] self = (Inr (Body (py_str v) []), self\<lparr>body := Some (Body (py_str v) [])\<rparr>)"
  by (simp add: set_body_def kw_has_def Value_def Let_def)

lemma HTMLPage_init_eq:
  "HTMLPage_init head_arg body_arg lang_arg =
     Inr \<lparr>lang = lang_arg, template = ''{doc_type}{html}'',
          head = Some (if py_bool head_arg then Head [] [] else Head (py_str head_arg) []),
          body = Some (if py_bool body_arg then Body [] [] else Body (py_str body_arg) [])\<rparr>"
  by (simp add: HTMLPage_init_def set_head_Value set_body_Value Let_def)

lemma page0_constructed: "HTMLPage_init PyNone PyNone ''en'' = Inr page0"
  by (simp add: HTMLPage_init_eq page0_def)

lemma page0_state: "page_state page0"
  using page0_constructed by (rule page_state.constructed)

subsection \<open>The two appending loops\<close>

text \<open>Whatever the fragments are and however the loop ends, it only appends to the content.\<close>

lemma add_tag_to_head_loop_shape:
  assumes "head self = Some h" and "add_tag_to_head_loop args self = (r, self')"
  shows "\<exists>ext. self' = self\<lparr>head := Some (h\<lparr>tag_content := tag_content h @ ext\<rparr>)\<rparr>"
  using assms
proof (induction args arbitrary: self h)
  case Nil
  then have "self' = self\<lparr>head := Some (h\<lparr>tag_content := tag_content h @ []\<rparr>)\<rparr>"
    by simp
  then show ?case by blast
next
  case (Cons tag args)
  show ?case
  proof (cases "tag self")
    case (Inl e)
    with Cons.prems have "self' = self\<lparr>head := Some (h\<lparr>tag_content := tag_content h @ []\<rparr>)\<rparr>"
      by simp
    then show ?thesis by blast
  next
    case (Inr s)
    define h1 where "h1 = h\<lparr>tag_content := tag_content h @ s\<rparr>"
    define self1 where "self1 = self\<lparr>head := Some h1\<rparr>"
    have "head self1 = Some h1" by (simp add: self1_def)
    moreover from Inr Cons.prems have "add_tag_to_head_loop args self1 = (r, self')"
      by (simp add: self1_def h1_def)
    ultimately obtain ext where "self' = self1\<lparr>head := Some (h1\<lparr>tag_content := tag_content h1 @ ext\<rparr>)\<rparr>"
      using Cons.IH by blast
    then have "self' = self\<lparr>head := Some (h\<lparr>tag_content := tag_content h @ (s @ ext)\<rparr>)\<rparr>"
      by (simp add: self1_def h1_def)
    then show ?thesis by blast
  qed
qed

lemma add_tag_to_body_loop_shape:
  assumes "body self = Some b" and "add_tag_to_body_loop args self = (r, self')"
  shows "\<exists>ext. self' = self\<lparr>body := Some (b\<lparr>tag_content := tag_content b @ ext\<rparr>)\<rparr>"
  using assms
proof (induction args arbitrary: self b)
  case Nil
  then have "self' = self\<lparr>body := Some (b\<lparr>tag_content := tag_content b @ []\<rparr>)\<rparr>"
    by simp
  then show ?case by blast
next
  case (Cons tag args)
  show ?case
  proof (cases "tag self")
    case (Inl e)
    with Cons.prems have "self' = self\<lparr>body := Some (b\<lparr>tag_content := tag_content b @ []\<rparr>)\<rparr>"
      by simp
    then show ?thesis by blast
  next
    case (Inr s)
    define b1 where "b1 = b\<lparr>tag_content := tag_content b @ s\<rparr>"
    define self1 where "self1 = self\<lparr>body := Some b1\<rparr>"
    have "body self1 = Some b1" by (simp add: self1_def)
    moreover from Inr Cons.prems have "add_tag_to_body_loop args self1 = (r, self')"
      by (simp add: self1_def b1_def)
    ultimately obtain ext where "self' = self1\<lparr>body := Some (b1\<lparr>tag_content := tag_content b1 @ ext\<rparr>)\<rparr>"
      using Cons.IH by blast
    then have "self' = self\<lparr>body := Some (b\<lparr>tag_content := tag_content b @ (s @ ext)\<rparr>)\<rparr>"
      by (simp add: self1_def b1_def)
    then show ?thesis by blast
  qed
qed

text \<open>
  When no fragment after the first depends on the section that is extended, the string
  forms are those of the state in which the call is made.
\<close>

lemma add_tag_to_head_loop_ok:
  assumes "head self = Some h" and "str_forms self args strs"
    and "\<forall>tag \<in> set (tl args). unaffected_by_head tag"
  shows "add_tag_to_head_loop args self =
        (Inr (), self\<lparr>head := Some (h\<lparr>tag_content := tag_content h @ concat strs\<rparr>)\<rparr>)"
  using assms
proof (induction args arbitrary: self h strs)
  case Nil
  then show ?case by (simp add: str_forms_Nil)
next
  case (Cons tag args)
  from Cons.prems(2) obtain s ss where strs: "strs = s # ss" "tag self = Inr s"
    "str_forms self args ss"
    by (auto simp: str_forms_Cons)
  define h1 where "h1 = h\<lparr>tag_content := tag_content h @ s\<rparr>"
  define self1 where "self1 = self\<lparr>head := Some h1\<rparr>"
  from Cons.prems(3) have un: "\<forall>t \<in> set args. unaffected_by_head t" by simp
  then have "map (\<lambda>t. t self1) args = map (\<lambda>t. t self) args"
    by (intro map_cong refl) (simp add: self1_def unaffected_by_head_def)
  with strs(3) have 1: "str_forms self1 args ss"
    by (simp only: str_forms_def)
  have 2: "head self1 = Some h1" by (simp add: self1_def)
  from un have 3: "\<forall>t \<in> set (tl args). unaffected_by_head t"
    by (cases args) auto
  have "add_tag_to_head_loop (tag # args) self = add_tag_to_head_loop args self1"
    using Cons.prems(1) strs(2) by (simp add: self1_def h1_def)
  also have "\<dots> = (Inr (), self1\<lparr>head := Some (h1\<lparr>tag_content := tag_content h1 @ concat ss\<rparr>)\<rparr>)"
    using 2 1 3 by (rule Cons.IH)
  finally show ?case by (simp add: self1_def h1_def strs(1))
qed

lemma add_tag_to_body_loop_ok:
  assumes "body self = Some b" and "str_forms self args strs"
    and "\<forall>tag \<in> set (tl args). unaffected_by_body tag"
  shows "add_tag_to_body_loop args self =
        (Inr (), self\<lparr>body := Some (b\<lparr>tag_content := tag_content b @ concat strs\<rparr>)\<rparr>)"
  using assms
proof (induction args arbitrary: self b strs)
  case Nil
  then show ?case by (simp add: str_forms_Nil)
next
  case (Cons tag args)
  from Cons.prems(2) obtain s ss where strs: "strs = s # ss" "tag self = Inr s"
    "str_forms self args ss"
    by (auto simp: str_forms_Cons)
  define b1 where "b1 = b\<lparr>tag_content := tag_content b @ s\<rparr>"
  define self1 where "self1 = self\<lparr>body := Some b1\<rparr>"
  from Cons.prems(3) have un: "\<forall>t \<in> set args. unaffected_by_body t" by simp
  then have "map (\<lambda>t. t self1) args = map (\<lambda>t. t self) args"
    by (intro map_cong refl) (simp add: self1_def unaffected_by_body_def)
  with strs(3) have 1: "str_forms self1 args ss"
    by (simp only: str_forms_def)
  have 2: "body self1 = Some b1" by (simp add: self1_def)
  from un have 3: "\<forall>t \<in> set (tl args). unaffected_by_body t"
    by (cases args) auto
  have "add_tag_to_body_loop (tag # args) self = add_tag_to_body_loop args self1"
    using Cons.prems(1) strs(2) by (simp add: self1_def b1_def)
  also have "\<dots> = (Inr (), self1\<lparr>body := Some (b1\<lparr>tag_content := tag_content b1 @ concat ss\<rparr>)\<rparr>)"
    using 2 1 3 by (rule Cons.IH)
  finally show ?case by (simp add: self1_def b1_def strs(1))
qed

lemma add_tag_to_head_loop_append:
  "add_tag_to_head_loop (xs @ ys) self =
     (case add_tag_to_head_loop xs self of
        (Inl e, self') \<Rightarrow> (Inl e, self')
      | (Inr u, self') \<Rightarrow> add_tag_to_head_loop ys self')"
  by (induction xs arbitrary: self) (simp_all split: option.splits sum.splits)

lemma add_tag_to_body_loop_append:
  "add_tag_to_body_loop (xs @ ys) self =
     (case add_tag_to_body_loop xs self of
        (Inl e, self') \<Rightarrow> (Inl e, self')
      | (Inr u, self') \<Rightarrow> add_tag_to_body_loop ys self')"
  by (induction xs arbitrary: self) (simp_all split: option.splits sum.splits)

subsection \<open>The two appending methods\<close>

lemma add_tag_to_head_shape:
  assumes "head self = Some h"
  shows "\<exists>r ext. add_tag_to_head args self =
        (r, self\<lparr>head := Some (h\<lparr>tag_content := tag_content h @ ext\<rparr>)\<rparr>) \<and>
      (\<forall>h'. r = Inr h' \<longrightarrow> h' = h\<lparr>tag_content := tag_content h @ ext\<rparr>)"
proof -
  obtain r0 self0 where l: "add_tag_to_head_loop args self = (r0, self0)"
    by (cases "add_tag_to_head_loop args self")
  from add_tag_to_head_loop_shape [OF assms l] obtain ext where
    self0: "self0 = self\<lparr>head := Some (h\<lparr>tag_content := tag_content h @ ext\<rparr>)\<rparr>"
    by blast
  show ?thesis
  proof (cases r0)
    case (Inl e)
    with l self0 have "add_tag_to_head args self =
        (Inl e, self\<lparr>head := Some (h\<lparr>tag_content := tag_content h @ ext\<rparr>)\<rparr>)"
      by (simp add: add_tag_to_head_def)
    then show ?thesis by auto
  next
    case (Inr u)
    with l self0 have "add_tag_to_head args self =
        (Inr (h\<lparr>tag_content := tag_content h @ ext\<rparr>),
         self\<lparr>head := Some (h\<lparr>tag_content := tag_content h @ ext\<rparr>)\<rparr>)"
      by (simp add: add_tag_to_head_def)
    then show ?thesis by auto
  qed
qed

lemma add_tag_to_body_shape:
  assumes "body self = Some b"
  shows "\<exists>r ext. add_tag_to_body args self =
        (r, self\<lparr>body := Some (b\<lparr>tag_content := tag_content b @ ext\<rparr>)\<rparr>) \<and>
      (\<forall>b'. r = Inr b' \<longrightarrow> b' = b\<lparr>tag_content := tag_content b @ ext\<rparr>)"
proof -
  obtain r0 self0 where l: "add_tag_to_body_loop args self = (r0, self0)"
    by (cases "add_tag_to_body_loop args self")
  from add_tag_to_body_loop_shape [OF assms l] obtain ext where
    self0: "self0 = self\<lparr>body := Some (b\<lparr>tag_content := tag_content b @ ext\<rparr>)\<rparr>"
    by blast
  show ?thesis
  proof (cases r0)
    case (Inl e)
    with l self0 have "add_tag_to_body args self =
        (Inl e, self\<lparr>body := Some (b\<lparr>tag_content := tag_content b @ ext\<rparr>)\<rparr>)"
      by (simp add: add_tag_to_body_def)
    then show ?thesis by auto
  next
    case (Inr u)
    with l self0 have "add_tag_to_body args self =
        (Inr (b\<lparr>tag_content := tag_content b @ ext\<rparr>),
         self\<lparr>body := Some (b\<lparr>tag_content := tag_content b @ ext\<rparr>)\<rparr>)"
      by (simp add: add_tag_to_body_def)
    then show ?thesis by auto
  qed
qed

lemma add_tag_to_head_ok:
  assumes "head self = Some h" and "str_forms self args strs"
    and "\<forall>tag \<in> set (tl args). unaffected_by_head tag"
  shows "add_tag_to_head args self =
        (Inr (h\<lparr>tag_content := tag_content h @ concat strs\<rparr>),
         self\<lparr>head := Some (h\<lparr>tag_content := tag_content h @ concat strs\<rparr>)\<rparr>)"
  by (simp add: add_tag_to_head_def add_tag_to_head_loop_ok [OF assms])

lemma add_tag_to_body_ok:
  assumes "body self = Some b" and "str_forms self args strs"
    and "\<forall>tag \<in> set (tl args). unaffected_by_body tag"
  shows "add_tag_to_body args self =
        (Inr (b\<lparr>tag_content := tag_content b @ concat strs\<rparr>),
         self\<lparr>body := Some (b\<lparr>tag_content := tag_content b @ concat strs\<rparr>)\<rparr>)"
  by (simp add: add_tag_to_body_def add_tag_to_body_loop_ok [OF assms])

text \<open>
  A call with the fragments \<open>xs @ ys\<close> does what the call with \<open>xs\<close> and then, unless that
  raised, the call with \<open>ys\<close> do.
\<close>

lemma add_tag_to_head_append:
  assumes "head self = Some h"
  shows "add_tag_to_head (xs @ ys) self =
     (case add_tag_to_head xs self of
        (Inl e, self') \<Rightarrow> (Inl e, self')
      | (Inr u, self') \<Rightarrow> add_tag_to_head ys self')"
proof -
  obtain r0 self0 where l: "add_tag_to_head_loop xs self = (r0, self0)"
    by (cases "add_tag_to_head_loop xs self")
  from add_tag_to_head_loop_shape [OF assms l] obtain h0 where "head self0 = Some h0"
    by auto
  with l show ?thesis
    by (cases r0) (simp_all add: add_tag_to_head_def add_tag_to_head_loop_append)
qed

lemma add_tag_to_body_append:
  assumes "body self = Some b"
  shows "add_tag_to_body (xs @ ys) self =
     (case add_tag_to_body xs self of
        (Inl e, self') \<Rightarrow> (Inl e, self')
      | (Inr u, self') \<Rightarrow> add_tag_to_body ys self')"
proof -
  obtain r0 self0 where l: "add_tag_to_body_loop xs self = (r0, self0)"
    by (cases "add_tag_to_body_loop xs self")
  from add_tag_to_body_loop_shape [OF assms l] obtain b0 where "body self0 = Some b0"
    by auto
  with l show ?thesis
    by (cases r0) (simp_all add: add_tag_to_body_def add_tag_to_body_loop_append)
qed

lemma add_tag_to_head_cases:
  assumes "add_tag_to_head args self = (r, self')"
  shows "self' = self \<or>
    (\<exists>h ext. head self = Some h \<and> self' = self\<lparr>head := Some (h\<lparr>tag_content := tag_content h @ ext\<rparr>)\<rparr>)"
proof (cases "head self")
  case None
  with assms show ?thesis
    by (cases args) (simp_all add: add_tag_to_head_def)
next
  case (Some h)
  from add_tag_to_head_shape [OF Some, of args] assms Some show ?thesis by auto
qed

lemma add_tag_to_body_cases:
  assumes "add_tag_to_body args self = (r, self')"
  shows "self' = self \<or>
    (\<exists>b ext. body self = Some b \<and> self' = self\<lparr>body := Some (b\<lparr>tag_content := tag_content b @ ext\<rparr>)\<rparr>)"
proof (cases "body self")
  case None
  with assms show ?thesis
    by (cases args) (simp_all add: add_tag_to_body_def)
next
  case (Some b)
  from add_tag_to_body_shape [OF Some, of args] assms Some show ?thesis by auto
qed

subsection \<open>The methods that assign nothing\<close>

lemma html_page: "snd (html self) = self"
  by (simp add: html_def split: option.splits)

lemma render_page: "snd (render E self) = self"
  by (simp add: render_def doc_type_def html_def split: option.splits)

lemma pretty_page: "snd (pretty E self arg encoding formatter) = self"
proof -
  obtain r where "render E self = (r, self)"
    using render_page [of E self] by (cases "render E self") simp
  then show ?thesis
    by (simp add: pretty_def Let_def split: sum.splits)
qed

lemma write_file_page: "fst (snd (write_file E self filename os)) = self"
proof -
  obtain p where "pretty E self None None ''minimal'' = (p, self)"
    using pretty_page [of E self None None "''minimal''"]
    by (cases "pretty E self None None ''minimal''") simp
  then show ?thesis
    by (simp add: write_file_def file_close_def split: sum.splits option.splits prod.splits)
qed

subsection \<open>What every page state satisfies\<close>

lemma wf_init: "HTMLPage_init head_arg body_arg lang_arg = Inr self \<Longrightarrow> wf_page self"
  by (auto simp: HTMLPage_init_eq wf_page_def owns_head_body_def is_Head_def is_Body_def
      Head_def Body_def)

lemma wf_set_head: "wf_page self \<Longrightarrow> set_head args kw self = (r, self') \<Longrightarrow> wf_page self'"
  by (drule set_head_cases) (auto simp: wf_page_def owns_head_body_def is_Head_def Head_def)

lemma wf_set_body: "wf_page self \<Longrightarrow> set_body args kw self = (r, self') \<Longrightarrow> wf_page self'"
  by (drule set_body_cases) (auto simp: wf_page_def owns_head_body_def is_Body_def Body_def)

lemma wf_add_tag_to_head:
  "wf_page self \<Longrightarrow> add_tag_to_head args self = (r, self') \<Longrightarrow> wf_page self'"
  by (drule add_tag_to_head_cases) (auto simp: wf_page_def owns_head_body_def is_Head_def)

lemma wf_add_tag_to_body:
  "wf_page self \<Longrightarrow> add_tag_to_body args self = (r, self') \<Longrightarrow> wf_page self'"
  by (drule add_tag_to_body_cases) (auto simp: wf_page_def owns_head_body_def is_Body_def)

lemma page_state_wf: "page_state self \<Longrightarrow> wf_page self"
proof (induction rule: page_state.induct)
  case (constructed head_arg body_arg lang_arg self)
  then show ?case by (rule wf_init)
next
  case (after_set_head self args kw r self')
  then show ?case by (blast intro: wf_set_head)
next
  case (after_set_body self args kw r self')
  then show ?case by (blast intro: wf_set_body)
next
  case (after_add_tag_to_head self args r self')
  then show ?case by (blast intro: wf_add_tag_to_head)
next
  case (after_add_tag_to_body self args r self')
  then show ?case by (blast intro: wf_add_tag_to_body)
qed

lemma wf_page_attrs:
  assumes "wf_page self"
  obtains h b where "head self = Some h" and "body self = Some b"
    and "tag_name h = ''head''" and "tag_name b = ''body''"
    and "template self = ''{doc_type}{html}''"
  using assms
  by (auto simp: wf_page_def owns_head_body_def is_Head_def is_Body_def split: option.splits)

lemma page_state_attrs:
  assumes "page_state self"
  obtains h b where "head self = Some h" and "body self = Some b"
  using page_state_wf [OF assms] by (rule wf_page_attrs)

lemma invoke_page_cases:
  "fst (snd (invoke E c (self, os))) = self
   \<or> (\<exists>args kw r. set_head args kw self = (r, fst (snd (invoke E c (self, os)))))
   \<or> (\<exists>args kw r. set_body args kw self = (r, fst (snd (invoke E c (self, os)))))
   \<or> (\<exists>args r. add_tag_to_head args self = (r, fst (snd (invoke E c (self, os)))))
   \<or> (\<exists>args r. add_tag_to_body args self = (r, fst (snd (invoke E c (self, os)))))"
proof (cases c)
  case (SetHead args kw)
  then show ?thesis by (cases "set_head args kw self") (auto split: sum.splits)
next
  case (SetBody args kw)
  then show ?thesis by (cases "set_body args kw self") (auto split: sum.splits)
next
  case (AddTagToHead args)
  then show ?thesis by (cases "add_tag_to_head args self") (auto split: sum.splits)
next
  case (AddTagToBody args)
  then show ?thesis by (cases "add_tag_to_body args self") (auto split: sum.splits)
next
  case Render
  then show ?thesis
    using render_page [of E self] by (cases "render E self") (auto split: sum.splits)
next
  case (Pretty arg encoding formatter)
  then show ?thesis
    using pretty_page [of E self arg encoding formatter]
    by (cases "pretty E self arg encoding formatter") (auto split: sum.splits)
next
  case (Write filename)
  then show ?thesis
    using write_file_page [of E self filename os]
    by (cases "write_file E self filename os") (auto split: sum.splits)
qed

lemma page_state_invoke:
  assumes "page_state self"
  shows "page_state (fst (snd (invoke E c (self, os))))"
  using invoke_page_cases [of E c self os] assms
  by (auto intro: page_state.intros)

lemma page_state_run: "page_state (fst st) \<Longrightarrow> page_state (fst (run E cs st))"
proof (induction cs arbitrary: st)
  case Nil
  then show ?case by simp
next
  case (Cons c cs)
  obtain self os where st: "st = (self, os)" by (cases st)
  with Cons.prems have "page_state (fst (snd (invoke E c st)))"
    by (simp add: page_state_invoke)
  then show ?case by (simp add: Cons.IH)
qed

subsection \<open>Rendering a page state\<close>

lemma render_wf:
  assumes "wf_page self" and "head self = Some h" and "body self = Some b"
  shows "render E self =
    (Inr (DocType_str E @ Element_str (Html (Element_str h @ Element_str b) [(''lang'', lang self)])),
     self)"
  using assms by (simp add: render_def html_def doc_type_def wf_page_def)

lemma Html_str:
  "Element_str (Html c [(''lang'', l)]) = ''<html '' @ lang_attr l @ ''>'' @ c @ ''</html>''"
  by (simp add: Element_str_def Html_def lang_attr_def)


section \<open>The constructor\<close>

text \<open>
  C1. For every call of the constructor, the initial head and body arguments are used
  only when they are falsy: a falsy argument goes through \<^verbatim>\<open>set_head\<close> (\<^verbatim>\<open>set_body\<close>), so the
  section's content is its string form; a truthy argument is dropped and the page gets
  the empty \<^verbatim>\<open>Head()\<close> (\<^verbatim>\<open>Body()\<close>) in its place.
\<close>

theorem init_honours_only_falsy_arguments:
  "\<exists>self. HTMLPage_init head_arg body_arg lang_arg = Inr self \<and>
     lang self = lang_arg \<and>
     head self = Some (if py_bool head_arg then Head [] [] else Head (py_str head_arg) []) \<and>
     body self = Some (if py_bool body_arg then Body [] [] else Body (py_str body_arg) []) \<and>
     (\<not> py_bool head_arg \<longrightarrow>
        (\<forall>p. fst (set_head [Value head_arg] [] p) = Inr (Head (py_str head_arg) []))) \<and>
     (\<not> py_bool body_arg \<longrightarrow>
        (\<forall>p. fst (set_body [Value body_arg] [] p) = Inr (Body (py_str body_arg) [])))"
  by (simp add: HTMLPage_init_eq set_head_Value set_body_Value)

theorem init_honours_only_falsy_arguments_witness:
  "\<exists>self. HTMLPage_init (PyElem (Head ''<title>t</title>'' [])) (PyStr []) ''fr'' = Inr self \<and>
     lang self = ''fr'' \<and> head self = Some (Head [] []) \<and> body self = Some (Body [] []) \<and>
     (\<forall>p. fst (set_body [Value (PyStr [])] [] p) = Inr (Body [] []))"
  using init_honours_only_falsy_arguments
    [of "PyElem (Head ''<title>t</title>'' [])" "PyStr []" "''fr''"]
  by simp

text \<open>
  C10, as the code has it. A falsy initial head (body) is passed to \<^verbatim>\<open>set_head\<close>
  (\<^verbatim>\<open>set_body\<close>) and stringified, so the content of the section is the string form of the
  argument. With \<^verbatim>\<open>head=None\<close> the head's content is the four characters \<^verbatim>\<open>None\<close>, and
  likewise for the body; the content is empty for the empty string and for no other
  falsy argument.
\<close>

theorem init_stringifies_falsy_arguments:
  "\<exists>self h b. HTMLPage_init head_arg body_arg lang_arg = Inr self \<and>
     head self = Some h \<and> body self = Some b \<and>
     (\<not> py_bool head_arg \<longrightarrow>
        tag_content h = py_str head_arg \<and>
        (\<forall>p. fst (set_head [Value head_arg] [] p) = Inr h) \<and>
        (tag_content h = [] \<longleftrightarrow> head_arg = PyStr [])) \<and>
     (\<not> py_bool body_arg \<longrightarrow>
        tag_content b = py_str body_arg \<and>
        (\<forall>p. fst (set_body [Value body_arg] [] p) = Inr b) \<and>
        (tag_content b = [] \<longleftrightarrow> body_arg = PyStr [])) \<and>
     (head_arg = PyNone \<longrightarrow> tag_content h = ''None'' \<and> length (tag_content h) = 4) \<and>
     (body_arg = PyNone \<longrightarrow> tag_content b = ''None'' \<and> length (tag_content b) = 4)"
proof -
  have "py_str v = [] \<longleftrightarrow> v = PyStr []" if "\<not> py_bool v" for v
    using that by (cases v) simp_all
  then show ?thesis
    by (auto simp: HTMLPage_init_eq set_head_Value set_body_Value Head_def Body_def)
qed

theorem init_stringifies_falsy_arguments_witness:
  "\<exists>self h b. HTMLPage_init PyNone PyNone ''en'' = Inr self \<and>
     head self = Some h \<and> body self = Some b \<and>
     tag_content h = ''None'' \<and> tag_content b = ''None'' \<and>
     Element_str h = ''<head>None</head>'' \<and> Element_str b = ''<body>None</body>''"
proof -
  from init_stringifies_falsy_arguments [of PyNone PyNone "''en''"]
  obtain self h b where *: "HTMLPage_init PyNone PyNone ''en'' = Inr self"
    "head self = Some h" "body self = Some b"
    "tag_content h = ''None''" "tag_content b = ''None''"
    by auto
  from * have "h = Head ''None'' []" "b = Body ''None'' []"
    by (auto simp: HTMLPage_init_eq)
  with * show ?thesis
    by (simp add: Element_str_def Head_def Body_def)
qed

text \<open>
  The claim as stated, that a falsy argument never leaves the content empty, fails for
  the falsy argument \<^verbatim>\<open>""\<close>: \<^verbatim>\<open>HTMLPage("", "", "en")\<close> has an empty head and an empty body.
\<close>

theorem init_falsy_content_counterexample:
  "\<not> py_bool (PyStr []) \<and>
   HTMLPage_init (PyStr []) (PyStr []) ''en'' =
     Inr \<lparr>lang = ''en'', template = ''{doc_type}{html}'',
          head = Some (Head [] []), body = Some (Body [] [])\<rparr> \<and>
   tag_content (Head [] []) = [] \<and> tag_content (Body [] []) = [] \<and>
   Element_str (Head [] []) = ''<head></head>''"
  by (simp add: HTMLPage_init_eq Head_def Body_def Element_str_def)


section \<open>Rendering\<close>

text \<open>
  C2. For every page state, \<^verbatim>\<open>render()\<close> returns the whole document: the doctype's string
  form, then the string form of an html element whose content is the head's string form
  followed by the body's, and whose only attribute is the page's language. With the
  element syntax of the spec this is the doctype, \<^verbatim>\<open><html lang="L">\<close>, the head, the
  body and \<^verbatim>\<open></html>\<close>; the output starts with the doctype.
\<close>

theorem render_full_document:
  assumes "page_state self"
  shows "\<exists>h b s. head self = Some h \<and> body self = Some b \<and>
     html self = (Inr (Html (Element_str h @ Element_str b) [(''lang'', lang self)]), self) \<and>
     render E self = (Inr s, self) \<and>
     s = DocType_str E @ Element_str (Html (Element_str h @ Element_str b) [(''lang'', lang self)]) \<and>
     s = DocType_str E @ ''<html lang='' @ dq @ lang self @ dq @ ''>''
           @ Element_str h @ Element_str b @ ''</html>'' \<and>
     prefix (DocType_str E) s"
proof -
  from assms have wf: "wf_page self" by (rule page_state_wf)
  then obtain h b where hb: "head self = Some h" "body self = Some b"
    by (rule wf_page_attrs)
  have "html self = (Inr (Html (Element_str h @ Element_str b) [(''lang'', lang self)]), self)"
    using hb by (simp add: html_def)
  moreover have "render E self =
      (Inr (DocType_str E @ Element_str (Html (Element_str h @ Element_str b) [(''lang'', lang self)])),
       self)"
    using wf hb by (rule render_wf)
  moreover have "Element_str (Html (Element_str h @ Element_str b) [(''lang'', lang self)]) =
      ''<html lang='' @ dq @ lang self @ dq @ ''>'' @ Element_str h @ Element_str b @ ''</html>''"
    by (simp add: Html_str lang_attr_def)
  ultimately show ?thesis using hb by simp
qed

theorem render_full_document_witness:
  "page_state page0 \<and>
   render env0 page0 =
     (Inr (''<!DOCTYPE html><html lang='' @ dq @ ''en'' @ dq
          @ ''><head>None</head><body>None</body></html>''), page0)"
proof -
  from render_full_document [OF page0_state, of env0]
  obtain h b s where *: "head page0 = Some h" "body page0 = Some b"
    "render env0 page0 = (Inr s, page0)"
    "s = DocType_str env0 @ ''<html lang='' @ dq @ lang page0 @ dq @ ''>''
           @ Element_str h @ Element_str b @ ''</html>''"
    by blast
  from *(1,2) have "h = Head ''None'' []" "b = Body ''None'' []"
    by (simp_all add: page0_def)
  with *(3,4) have "render env0 page0 =
     (Inr (''<!DOCTYPE html><html lang='' @ dq @ ''en'' @ dq
          @ ''><head>None</head><body>None</body></html>''), page0)"
    by (simp add: page0_def env0_def Element_str_def Head_def Body_def)
  with page0_state show ?thesis ..
qed


section \<open>Replacing and extending the sections\<close>

lemma concat_tags_outcome:
  "(\<exists>strs. str_forms self args strs \<and> concat_tags self content args = Inr (content @ concat strs))
   \<or> (\<exists>e. concat_tags self content args = Inl e)"
proof (induction args arbitrary: content)
  case Nil
  then show ?case by (simp add: str_forms_Nil)
next
  case (Cons tag args)
  show ?case
  proof (cases "tag self")
    case (Inl e)
    then show ?thesis by simp
  next
    case (Inr s)
    from Cons [of "content @ s"] show ?thesis
    proof
      assume "\<exists>strs. str_forms self args strs \<and>
        concat_tags self (content @ s) args = Inr ((content @ s) @ concat strs)"
      then obtain ss where "str_forms self args ss"
        "concat_tags self (content @ s) args = Inr ((content @ s) @ concat ss)"
        by blast
      with Inr have "str_forms self (tag # args) (s # ss) \<and>
        concat_tags self content (tag # args) = Inr (content @ concat (s # ss))"
        by (simp add: str_forms_Cons)
      then show ?thesis by blast
    next
      assume "\<exists>e. concat_tags self (content @ s) args = Inl e"
      with Inr show ?thesis by simp
    qed
  qed
qed

text \<open>
  C3, as the code has it. For every page, every sequence of fragments and every
  attribute map that does not use the parameter names \<^verbatim>\<open>self\<close> and \<^verbatim>\<open>tag_content\<close> as keys:
  when the fragments have the string forms \<open>strs\<close>, \<^verbatim>\<open>set_head\<close> (and \<^verbatim>\<open>set_body\<close> alike)
  concatenates them in call order, builds a new Head (Body) with that content and those
  attributes, stores it in the page and returns it; when a conversion raises, the call
  raises the same and the page is as before. The new content is the concatenation and
  nothing else: after another \<^verbatim>\<open>set_head\<close> the call gives the same result and the same page
  as without it, provided its fragments have the same string forms then (a fragment that
  is the page or its head has not). The head renders as \<^verbatim>\<open><head\<close>, the attributes, \<^verbatim>\<open>>\<close>,
  the new content and \<^verbatim>\<open></head>\<close>.
\<close>

theorem set_head_replaces:
  assumes "\<not> kw_clash kw"
  shows "((\<exists>strs. str_forms self args strs) \<or> (\<exists>e. concat_tags self [] args = Inl e)) \<and>
     (\<forall>e. concat_tags self [] args = Inl e \<longrightarrow>
        set_head args kw self = (Inl e, self) \<and> set_body args kw self = (Inl e, self)) \<and>
     (\<forall>strs. str_forms self args strs \<longrightarrow>
        concat_tags self [] args = Inr (concat strs) \<and>
        set_head args kw self =
          (Inr (Head (concat strs) kw), self\<lparr>head := Some (Head (concat strs) kw)\<rparr>) \<and>
        set_body args kw self =
          (Inr (Body (concat strs) kw), self\<lparr>body := Some (Body (concat strs) kw)\<rparr>) \<and>
        (\<forall>args0 kw0 r0 self0. set_head args0 kw0 self = (r0, self0) \<and> str_forms self0 args strs \<longrightarrow>
           set_head args kw self0 = set_head args kw self) \<and>
        (\<forall>args0 kw0 r0 self0. set_body args0 kw0 self = (r0, self0) \<and> str_forms self0 args strs \<longrightarrow>
           set_body args kw self0 = set_body args kw self) \<and>
        Element_str (Head (concat strs) kw) =
          ''<head'' @ props_str kw @ ''>'' @ concat strs @ ''</head>'' \<and>
        Element_str (Body (concat strs) kw) =
          ''<body'' @ props_str kw @ ''>'' @ concat strs @ ''</body>'')"
proof -
  have outcome: "(\<exists>strs. str_forms self args strs) \<or> (\<exists>e. concat_tags self [] args = Inl e)"
    using concat_tags_outcome [of self args "[]"] by blast
  have raise: "set_head args kw self = (Inl e, self) \<and> set_body args kw self = (Inl e, self)"
    if "concat_tags self [] args = Inl e" for e
    using that assms by (simp add: set_head_def set_body_def kw_clash_def)
  have ok: "concat_tags self [] args = Inr (concat strs) \<and>
        set_head args kw self =
          (Inr (Head (concat strs) kw), self\<lparr>head := Some (Head (concat strs) kw)\<rparr>) \<and>
        set_body args kw self =
          (Inr (Body (concat strs) kw), self\<lparr>body := Some (Body (concat strs) kw)\<rparr>)"
    if "str_forms self args strs" for strs
    using assms that by (simp add: set_head_ok set_body_ok concat_tags_str_forms)
  have again_head: "set_head args kw self0 = set_head args kw self"
    if "str_forms self args strs" and "set_head args0 kw0 self = (r0, self0)"
      and "str_forms self0 args strs" for strs args0 kw0 r0 self0
  proof -
    from set_head_cases [OF that(2)]
    have "self0\<lparr>head := Some (Head (concat strs) kw)\<rparr> = self\<lparr>head := Some (Head (concat strs) kw)\<rparr>"
      by auto
    then show ?thesis
      using assms that(1,3) by (simp add: set_head_ok)
  qed
  have again_body: "set_body args kw self0 = set_body args kw self"
    if "str_forms self args strs" and "set_body args0 kw0 self = (r0, self0)"
      and "str_forms self0 args strs" for strs args0 kw0 r0 self0
  proof -
    from set_body_cases [OF that(2)]
    have "self0\<lparr>body := Some (Body (concat strs) kw)\<rparr> = self\<lparr>body := Some (Body (concat strs) kw)\<rparr>"
      by auto
    then show ?thesis
      using assms that(1,3) by (simp add: set_body_ok)
  qed
  have str: "Element_str (Head c kw) = ''<head'' @ props_str kw @ ''>'' @ c @ ''</head>''"
    "Element_str (Body c kw) = ''<body'' @ props_str kw @ ''>'' @ c @ ''</body>''" for c
    by (simp_all add: Element_str_def Head_def Body_def)
  have B: "\<forall>e. concat_tags self [] args = Inl e \<longrightarrow>
        set_head args kw self = (Inl e, self) \<and> set_body args kw self = (Inl e, self)"
    using raise by blast
  have C: "\<forall>strs. str_forms self args strs \<longrightarrow>
        concat_tags self [] args = Inr (concat strs) \<and>
        set_head args kw self =
          (Inr (Head (concat strs) kw), self\<lparr>head := Some (Head (concat strs) kw)\<rparr>) \<and>
        set_body args kw self =
          (Inr (Body (concat strs) kw), self\<lparr>body := Some (Body (concat strs) kw)\<rparr>) \<and>
        (\<forall>args0 kw0 r0 self0. set_head args0 kw0 self = (r0, self0) \<and> str_forms self0 args strs \<longrightarrow>
           set_head args kw self0 = set_head args kw self) \<and>
        (\<forall>args0 kw0 r0 self0. set_body args0 kw0 self = (r0, self0) \<and> str_forms self0 args strs \<longrightarrow>
           set_body args kw self0 = set_body args kw self) \<and>
        Element_str (Head (concat strs) kw) =
          ''<head'' @ props_str kw @ ''>'' @ concat strs @ ''</head>'' \<and>
        Element_str (Body (concat strs) kw) =
          ''<body'' @ props_str kw @ ''>'' @ concat strs @ ''</body>''"
  proof (intro allI impI)
    fix strs
    assume sf: "str_forms self args strs"
    have 1: "\<forall>args0 kw0 r0 self0. set_head args0 kw0 self = (r0, self0) \<and> str_forms self0 args strs \<longrightarrow>
           set_head args kw self0 = set_head args kw self"
      using again_head [OF sf] by blast
    have 2: "\<forall>args0 kw0 r0 self0. set_body args0 kw0 self = (r0, self0) \<and> str_forms self0 args strs \<longrightarrow>
           set_body args kw self0 = set_body args kw self"
      using again_body [OF sf] by blast
    from ok [OF sf] have 3: "concat_tags self [] args = Inr (concat strs)"
      and 4: "set_head args kw self =
          (Inr (Head (concat strs) kw), self\<lparr>head := Some (Head (concat strs) kw)\<rparr>)"
      and 5: "set_body args kw self =
          (Inr (Body (concat strs) kw), self\<lparr>body := Some (Body (concat strs) kw)\<rparr>)"
      by simp_all
    show "concat_tags self [] args = Inr (concat strs) \<and>
        set_head args kw self =
          (Inr (Head (concat strs) kw), self\<lparr>head := Some (Head (concat strs) kw)\<rparr>) \<and>
        set_body args kw self =
          (Inr (Body (concat strs) kw), self\<lparr>body := Some (Body (concat strs) kw)\<rparr>) \<and>
        (\<forall>args0 kw0 r0 self0. set_head args0 kw0 self = (r0, self0) \<and> str_forms self0 args strs \<longrightarrow>
           set_head args kw self0 = set_head args kw self) \<and>
        (\<forall>args0 kw0 r0 self0. set_body args0 kw0 self = (r0, self0) \<and> str_forms self0 args strs \<longrightarrow>
           set_body args kw self0 = set_body args kw self) \<and>
        Element_str (Head (concat strs) kw) =
          ''<head'' @ props_str kw @ ''>'' @ concat strs @ ''</head>'' \<and>
        Element_str (Body (concat strs) kw) =
          ''<body'' @ props_str kw @ ''>'' @ concat strs @ ''</body>''"
      by (intro conjI) (fact 3, fact 4, fact 5, fact 1, fact 2, fact str(1), fact str(2))
  qed
  show ?thesis
    by (intro conjI) (fact outcome, fact B, fact C)
qed

theorem set_head_replaces_witness:
  "\<not> kw_clash [(''class'', ''c'')] \<and>
   str_forms page0 [Value (PyStr ''<title>''), Value PyNone, Value (PyStr ''</title>'')]
     [''<title>'', ''None'', ''</title>''] \<and>
   set_head [Value (PyStr ''<title>''), Value PyNone, Value (PyStr ''</title>'')]
       [(''class'', ''c'')] page0 =
     (Inr (Head ''<title>None</title>'' [(''class'', ''c'')]),
      page0\<lparr>head := Some (Head ''<title>None</title>'' [(''class'', ''c'')])\<rparr>) \<and>
   Element_str (Head ''<title>None</title>'' [(''class'', ''c'')]) =
     ''<head class='' @ dq @ ''c'' @ dq @ ''><title>None</title></head>''"
proof -
  let ?args = "[Value (PyStr ''<title>''), Value PyNone, Value (PyStr ''</title>'')]"
  have ok: "\<not> kw_clash [(''class'', ''c'')]"
    by (simp add: kw_clash_def kw_has_def)
  have sf: "str_forms page0 ?args [''<title>'', ''None'', ''</title>'']"
    by (simp add: str_forms_def Value_def)
  from set_head_replaces [OF ok, of page0 ?args] sf
  have "set_head ?args [(''class'', ''c'')] page0 =
     (Inr (Head (concat [''<title>'', ''None'', ''</title>'']) [(''class'', ''c'')]),
      page0\<lparr>head := Some (Head (concat [''<title>'', ''None'', ''</title>'']) [(''class'', ''c'')])\<rparr>)"
    and "Element_str (Head (concat [''<title>'', ''None'', ''</title>'']) [(''class'', ''c'')]) =
     ''<head'' @ props_str [(''class'', ''c'')] @ ''>'' @ concat [''<title>'', ''None'', ''</title>'']
       @ ''</head>''"
    by blast+
  then have "set_head ?args [(''class'', ''c'')] page0 =
     (Inr (Head ''<title>None</title>'' [(''class'', ''c'')]),
      page0\<lparr>head := Some (Head ''<title>None</title>'' [(''class'', ''c'')])\<rparr>)"
    and "Element_str (Head ''<title>None</title>'' [(''class'', ''c'')]) =
     ''<head class='' @ dq @ ''c'' @ dq @ ''><title>None</title></head>''"
    by simp_all
  with ok sf show ?thesis by blast
qed

text \<open>
  The claim as stated, for every attribute map, fails: with the key \<^verbatim>\<open>tag_content\<close> among
  the attributes the call \<^verbatim>\<open>Head(tag_content=content, **props)\<close> raises TypeError, no Head
  is built and the page keeps its head.
\<close>

theorem set_head_every_attribute_map_counterexample:
  "set_head [Value (PyStr ''a'')] [(''tag_content'', ''b'')] page0 = (Inl TypeError, page0) \<and>
   set_body [Value (PyStr ''a'')] [(''tag_content'', ''b'')] page0 = (Inl TypeError, page0)"
  by (simp add: set_head_def set_body_def kw_has_def Value_def)

text \<open>
  The page itself as a fragment: \<^verbatim>\<open>p.set_head(p)\<close> stores the rendering of the page as it
  is at the call, so after \<^verbatim>\<open>p.set_head("A")\<close> the new head holds \<^verbatim>\<open><head>A</head>\<close>, and
  without it \<^verbatim>\<open><head>None</head>\<close>.
\<close>

lemma set_head_page_itself:
  "fst (set_head [ThePage env0] [] page0) =
     Inr (Head (''<!DOCTYPE html><html lang='' @ dq @ ''en'' @ dq
               @ ''><head>None</head><body>None</body></html>'') [])"
  "fst (set_head [ThePage env0] [] (snd (set_head [Value (PyStr ''A'')] [] page0))) =
     Inr (Head (''<!DOCTYPE html><html lang='' @ dq @ ''en'' @ dq
               @ ''><head>A</head><body>None</body></html>'') [])"
  by (simp_all add: set_head_def kw_has_def ThePage_def page_str_def render_def html_def
      doc_type_def Value_def page0_def env0_def Element_str_def Html_def Head_def Body_def Let_def)

text \<open>
  C4, as the code has it. For every page state and every sequence of fragments,
  \<^verbatim>\<open>add_tag_to_head\<close> (and \<^verbatim>\<open>add_tag_to_body\<close> alike) appends and never replaces: whether it
  returns or raises, the section keeps its tag name and attributes and its new content
  is the prior content followed by what was appended, so the prior content is a prefix
  of the new one, a strict one exactly when something non-empty was appended. The
  fragments are converted and appended in call order, each when its turn comes: a call
  with \<open>xs @ ys\<close> does what the call with \<open>xs\<close> and then, unless that raised, the call with
  \<open>ys\<close> do. When the fragments have the string forms \<open>strs\<close> and none after the first
  depends on the section, these are appended verbatim and the section is stored in the
  page and returned.
\<close>

theorem add_tag_appends:
  assumes "page_state self"
  shows "\<exists>h b. head self = Some h \<and> body self = Some b \<and>
     (\<exists>r ext. add_tag_to_head args self =
          (r, self\<lparr>head := Some (h\<lparr>tag_content := tag_content h @ ext\<rparr>)\<rparr>) \<and>
        (\<forall>h'. r = Inr h' \<longrightarrow> h' = h\<lparr>tag_content := tag_content h @ ext\<rparr>) \<and>
        prefix (tag_content h) (tag_content h @ ext) \<and>
        (strict_prefix (tag_content h) (tag_content h @ ext) \<longleftrightarrow> ext \<noteq> []) \<and>
        (\<forall>strs. str_forms self args strs \<and> (\<forall>tag \<in> set (tl args). unaffected_by_head tag) \<longrightarrow>
           r = Inr (h\<lparr>tag_content := tag_content h @ concat strs\<rparr>) \<and> ext = concat strs \<and>
           (strict_prefix (tag_content h) (tag_content h @ ext) \<longleftrightarrow> (\<exists>s \<in> set strs. s \<noteq> [])))) \<and>
     (\<exists>r ext. add_tag_to_body args self =
          (r, self\<lparr>body := Some (b\<lparr>tag_content := tag_content b @ ext\<rparr>)\<rparr>) \<and>
        (\<forall>b'. r = Inr b' \<longrightarrow> b' = b\<lparr>tag_content := tag_content b @ ext\<rparr>) \<and>
        prefix (tag_content b) (tag_content b @ ext) \<and>
        (strict_prefix (tag_content b) (tag_content b @ ext) \<longleftrightarrow> ext \<noteq> []) \<and>
        (\<forall>strs. str_forms self args strs \<and> (\<forall>tag \<in> set (tl args). unaffected_by_body tag) \<longrightarrow>
           r = Inr (b\<lparr>tag_content := tag_content b @ concat strs\<rparr>) \<and> ext = concat strs \<and>
           (strict_prefix (tag_content b) (tag_content b @ ext) \<longleftrightarrow> (\<exists>s \<in> set strs. s \<noteq> [])))) \<and>
     (\<forall>xs ys. args = xs @ ys \<longrightarrow>
        add_tag_to_head args self =
          (case add_tag_to_head xs self of
             (Inl e, self') \<Rightarrow> (Inl e, self')
           | (Inr u, self') \<Rightarrow> add_tag_to_head ys self') \<and>
        add_tag_to_body args self =
          (case add_tag_to_body xs self of
             (Inl e, self') \<Rightarrow> (Inl e, self')
           | (Inr u, self') \<Rightarrow> add_tag_to_body ys self'))"
proof -
  from assms obtain h b where hb: "head self = Some h" "body self = Some b"
    by (rule page_state_attrs)
  from add_tag_to_head_shape [OF hb(1), of args] obtain rh eh where eh:
    "add_tag_to_head args self = (rh, self\<lparr>head := Some (h\<lparr>tag_content := tag_content h @ eh\<rparr>)\<rparr>)"
    "\<forall>h'. rh = Inr h' \<longrightarrow> h' = h\<lparr>tag_content := tag_content h @ eh\<rparr>"
    by blast
  from add_tag_to_body_shape [OF hb(2), of args] obtain rb eb where eb:
    "add_tag_to_body args self = (rb, self\<lparr>body := Some (b\<lparr>tag_content := tag_content b @ eb\<rparr>)\<rparr>)"
    "\<forall>b'. rb = Inr b' \<longrightarrow> b' = b\<lparr>tag_content := tag_content b @ eb\<rparr>"
    by blast
  have vh: "rh = Inr (h\<lparr>tag_content := tag_content h @ concat strs\<rparr>) \<and> eh = concat strs \<and>
      (strict_prefix (tag_content h) (tag_content h @ eh) \<longleftrightarrow> (\<exists>s \<in> set strs. s \<noteq> []))"
    if "str_forms self args strs" and "\<forall>tag \<in> set (tl args). unaffected_by_head tag" for strs
  proof -
    from add_tag_to_head_ok [OF hb(1) that] eh(1)
    have r: "rh = Inr (h\<lparr>tag_content := tag_content h @ concat strs\<rparr>)"
      and "self\<lparr>head := Some (h\<lparr>tag_content := tag_content h @ eh\<rparr>)\<rparr> =
        self\<lparr>head := Some (h\<lparr>tag_content := tag_content h @ concat strs\<rparr>)\<rparr>"
      by simp_all
    then have "head (self\<lparr>head := Some (h\<lparr>tag_content := tag_content h @ eh\<rparr>)\<rparr>) =
        head (self\<lparr>head := Some (h\<lparr>tag_content := tag_content h @ concat strs\<rparr>)\<rparr>)"
      by simp
    then have "tag_content (h\<lparr>tag_content := tag_content h @ eh\<rparr>) =
        tag_content (h\<lparr>tag_content := tag_content h @ concat strs\<rparr>)"
      by simp
    then have e: "eh = concat strs" by simp
    with r show ?thesis by (auto simp: strict_prefix_def)
  qed
  have vb: "rb = Inr (b\<lparr>tag_content := tag_content b @ concat strs\<rparr>) \<and> eb = concat strs \<and>
      (strict_prefix (tag_content b) (tag_content b @ eb) \<longleftrightarrow> (\<exists>s \<in> set strs. s \<noteq> []))"
    if "str_forms self args strs" and "\<forall>tag \<in> set (tl args). unaffected_by_body tag" for strs
  proof -
    from add_tag_to_body_ok [OF hb(2) that] eb(1)
    have r: "rb = Inr (b\<lparr>tag_content := tag_content b @ concat strs\<rparr>)"
      and "self\<lparr>body := Some (b\<lparr>tag_content := tag_content b @ eb\<rparr>)\<rparr> =
        self\<lparr>body := Some (b\<lparr>tag_content := tag_content b @ concat strs\<rparr>)\<rparr>"
      by simp_all
    then have "body (self\<lparr>body := Some (b\<lparr>tag_content := tag_content b @ eb\<rparr>)\<rparr>) =
        body (self\<lparr>body := Some (b\<lparr>tag_content := tag_content b @ concat strs\<rparr>)\<rparr>)"
      by simp
    then have "tag_content (b\<lparr>tag_content := tag_content b @ eb\<rparr>) =
        tag_content (b\<lparr>tag_content := tag_content b @ concat strs\<rparr>)"
      by simp
    then have e: "eb = concat strs" by simp
    with r show ?thesis by (auto simp: strict_prefix_def)
  qed
  have split: "add_tag_to_head args self =
          (case add_tag_to_head xs self of
             (Inl e, self') \<Rightarrow> (Inl e, self')
           | (Inr u, self') \<Rightarrow> add_tag_to_head ys self') \<and>
        add_tag_to_body args self =
          (case add_tag_to_body xs self of
             (Inl e, self') \<Rightarrow> (Inl e, self')
           | (Inr u, self') \<Rightarrow> add_tag_to_body ys self')"
    if "args = xs @ ys" for xs ys
    unfolding that using add_tag_to_head_append [OF hb(1)] add_tag_to_body_append [OF hb(2)]
    by blast
  have sh: "strict_prefix (tag_content h) (tag_content h @ eh) \<longleftrightarrow> eh \<noteq> []"
    and sb: "strict_prefix (tag_content b) (tag_content b @ eb) \<longleftrightarrow> eb \<noteq> []"
    by (simp_all add: strict_prefix_def)
  have ph: "prefix (tag_content h) (tag_content h @ eh)"
    and pb: "prefix (tag_content b) (tag_content b @ eb)"
    by simp_all
  have vh': "\<forall>strs. str_forms self args strs \<and> (\<forall>tag \<in> set (tl args). unaffected_by_head tag) \<longrightarrow>
           rh = Inr (h\<lparr>tag_content := tag_content h @ concat strs\<rparr>) \<and> eh = concat strs \<and>
           (strict_prefix (tag_content h) (tag_content h @ eh) \<longleftrightarrow> (\<exists>s \<in> set strs. s \<noteq> []))"
    using vh by blast
  have vb': "\<forall>strs. str_forms self args strs \<and> (\<forall>tag \<in> set (tl args). unaffected_by_body tag) \<longrightarrow>
           rb = Inr (b\<lparr>tag_content := tag_content b @ concat strs\<rparr>) \<and> eb = concat strs \<and>
           (strict_prefix (tag_content b) (tag_content b @ eb) \<longleftrightarrow> (\<exists>s \<in> set strs. s \<noteq> []))"
    using vb by blast
  have head_part: "\<exists>r ext. add_tag_to_head args self =
          (r, self\<lparr>head := Some (h\<lparr>tag_content := tag_content h @ ext\<rparr>)\<rparr>) \<and>
        (\<forall>h'. r = Inr h' \<longrightarrow> h' = h\<lparr>tag_content := tag_content h @ ext\<rparr>) \<and>
        prefix (tag_content h) (tag_content h @ ext) \<and>
        (strict_prefix (tag_content h) (tag_content h @ ext) \<longleftrightarrow> ext \<noteq> []) \<and>
        (\<forall>strs. str_forms self args strs \<and> (\<forall>tag \<in> set (tl args). unaffected_by_head tag) \<longrightarrow>
           r = Inr (h\<lparr>tag_content := tag_content h @ concat strs\<rparr>) \<and> ext = concat strs \<and>
           (strict_prefix (tag_content h) (tag_content h @ ext) \<longleftrightarrow> (\<exists>s \<in> set strs. s \<noteq> [])))"
    by (rule exI [of _ rh], rule exI [of _ eh], intro conjI) (fact eh(1), fact eh(2), fact ph, fact sh, fact vh')
  have body_part: "\<exists>r ext. add_tag_to_body args self =
          (r, self\<lparr>body := Some (b\<lparr>tag_content := tag_content b @ ext\<rparr>)\<rparr>) \<and>
        (\<forall>b'. r = Inr b' \<longrightarrow> b' = b\<lparr>tag_content := tag_content b @ ext\<rparr>) \<and>
        prefix (tag_content b) (tag_content b @ ext) \<and>
        (strict_prefix (tag_content b) (tag_content b @ ext) \<longleftrightarrow> ext \<noteq> []) \<and>
        (\<forall>strs. str_forms self args strs \<and> (\<forall>tag \<in> set (tl args). unaffected_by_body tag) \<longrightarrow>
           r = Inr (b\<lparr>tag_content := tag_content b @ concat strs\<rparr>) \<and> ext = concat strs \<and>
           (strict_prefix (tag_content b) (tag_content b @ ext) \<longleftrightarrow> (\<exists>s \<in> set strs. s \<noteq> [])))"
    by (rule exI [of _ rb], rule exI [of _ eb], intro conjI) (fact eb(1), fact eb(2), fact pb, fact sb, fact vb')
  have split': "\<forall>xs ys. args = xs @ ys \<longrightarrow>
        add_tag_to_head args self =
          (case add_tag_to_head xs self of
             (Inl e, self') \<Rightarrow> (Inl e, self')
           | (Inr u, self') \<Rightarrow> add_tag_to_head ys self') \<and>
        add_tag_to_body args self =
          (case add_tag_to_body xs self of
             (Inl e, self') \<Rightarrow> (Inl e, self')
           | (Inr u, self') \<Rightarrow> add_tag_to_body ys self')"
    using split by blast
  show ?thesis
    by (rule exI [of _ h], rule exI [of _ b], intro conjI)
       (fact hb(1), fact hb(2), fact head_part, fact body_part, fact split')
qed

theorem add_tag_appends_witness:
  "page_state page0 \<and>
   add_tag_to_body [Value (PyStr ''<p>''), Value (PyStr ''hi''), Value (PyStr ''</p>'')] page0 =
     (Inr (Body ''None<p>hi</p>'' []), page0\<lparr>body := Some (Body ''None<p>hi</p>'' [])\<rparr>) \<and>
   strict_prefix ''None'' ''None<p>hi</p>''"
proof -
  define args where "args = [Value (PyStr ''<p>''), Value (PyStr ''hi''), Value (PyStr ''</p>'')]"
  define strs where "strs = [''<p>'', ''hi'', ''</p>'']"
  have sf: "str_forms page0 args strs"
    by (simp add: str_forms_def Value_def args_def strs_def)
  have un: "\<forall>tag \<in> set (tl args). unaffected_by_body tag"
    by (simp add: unaffected_Value args_def)
  from add_tag_appends [OF page0_state, of args]
  obtain h b rh eh rb eb where *: "body page0 = Some b"
    "add_tag_to_body args page0 = (rb, page0\<lparr>body := Some (b\<lparr>tag_content := tag_content b @ eb\<rparr>)\<rparr>)"
    "\<forall>strs. str_forms page0 args strs \<and> (\<forall>tag \<in> set (tl args). unaffected_by_body tag) \<longrightarrow>
       rb = Inr (b\<lparr>tag_content := tag_content b @ concat strs\<rparr>) \<and> eb = concat strs \<and>
       (strict_prefix (tag_content b) (tag_content b @ eb) \<longleftrightarrow> (\<exists>s \<in> set strs. s \<noteq> []))"
    by (elim exE conjE) (rule that)
  note c = *(3) [THEN spec, THEN mp, OF conjI [OF sf un]]
  note ** = c [THEN conjunct1] c [THEN conjunct2, THEN conjunct1]
    c [THEN conjunct2, THEN conjunct2]
  from *(1) have b: "b = Body ''None'' []" by (simp add: page0_def)
  from *(2) **(1,2) b have 1: "add_tag_to_body args page0 =
     (Inr (Body ''None<p>hi</p>'' []), page0\<lparr>body := Some (Body ''None<p>hi</p>'' [])\<rparr>)"
    by (simp add: Body_def strs_def)
  from **(2,3) b have 2: "strict_prefix ''None'' ''None<p>hi</p>''"
    by (simp add: Body_def strs_def)
  from page0_state 1 2 show ?thesis
    unfolding args_def by (intro conjI)
qed

text \<open>
  The prefix need not be strict: a call without fragments (or with empty ones) returns
  the section with its content unchanged.
\<close>

theorem add_tag_strict_prefix_counterexample:
  "HTMLPage_init PyNone PyNone ''en'' = Inr page0 \<and>
   head page0 = Some (Head ''None'' []) \<and>
   add_tag_to_head [] page0 = (Inr (Head ''None'' []), page0) \<and>
   add_tag_to_head [Value (PyStr [])] page0 = (Inr (Head ''None'' []), page0) \<and>
   \<not> strict_prefix (tag_content (Head ''None'' [])) (tag_content (Head ''None'' []))"
  by (simp add: page0_constructed add_tag_to_head_def Value_def page0_def Head_def)

text \<open>
  Fragments that depend on the section are converted when their turn comes:
  \<^verbatim>\<open>page.add_tag_to_head(page.head, page.head)\<close> appends the head as it was and then the
  head as the first append left it, and \<^verbatim>\<open>page.add_tag_to_head("x", page)\<close> appends \<^verbatim>\<open>x\<close>
  and then the rendering of the page whose head already ends in \<^verbatim>\<open>x\<close>.
\<close>

lemma add_tag_to_head_own_head:
  "add_tag_to_head [TheHead, TheHead] page0 =
     (Inr (Head ''None<head>None</head><head>None<head>None</head></head>'' []),
      page0\<lparr>head := Some (Head ''None<head>None</head><head>None<head>None</head></head>'' [])\<rparr>)"
  by (simp add: add_tag_to_head_def TheHead_def page0_def Head_def Element_str_def)

lemma add_tag_to_head_page_itself:
  "fst (add_tag_to_head [Value (PyStr ''x''), ThePage env0] page0) =
     Inr (Head (''Nonex<!DOCTYPE html><html lang='' @ dq @ ''en'' @ dq
               @ ''><head>Nonex</head><body>None</body></html>'') [])"
  by (simp add: add_tag_to_head_def ThePage_def page_str_def render_def html_def
      doc_type_def Value_def page0_def env0_def Element_str_def Html_def Head_def Body_def)


section \<open>Purity of rendering, and the page's sections over its lifetime\<close>

lemma invoke_not_mutating:
  assumes "\<not> mutating c"
  shows "fst (snd (invoke E c (self, os))) = self"
proof (cases c)
  case Render
  then show ?thesis
    using render_page [of E self] by (cases "render E self") (simp split: sum.splits)
next
  case (Pretty arg encoding formatter)
  then show ?thesis
    using pretty_page [of E self arg encoding formatter]
    by (cases "pretty E self arg encoding formatter") (simp split: sum.splits)
next
  case (Write filename)
  then show ?thesis
    using write_file_page [of E self filename os]
    by (cases "write_file E self filename os") (simp split: sum.splits)
qed (use assms in simp_all)

lemma run_not_mutating:
  "\<forall>c \<in> set cs. \<not> mutating c \<Longrightarrow> fst (run E cs (self, os)) = self"
proof (induction cs arbitrary: os)
  case Nil
  then show ?case by simp
next
  case (Cons c cs)
  obtain r os' where "invoke E c (self, os) = (r, self, os')"
    using invoke_not_mutating [of c E self os] Cons.prems
    by (cases "invoke E c (self, os)") auto
  with Cons show ?case by simp
qed

text \<open>
  C5. \<^verbatim>\<open>render()\<close> is a function of the page's state and changes nothing. The method, with
  the properties \<^verbatim>\<open>doc_type\<close> and \<^verbatim>\<open>html\<close> it reads, returns the page it was called on
  (language, template, head and body as they were); a second call returns the same
  string, and so does a call after any calls of \<^verbatim>\<open>render\<close>, \<^verbatim>\<open>pretty\<close> and \<^verbatim>\<open>write\<close>, which
  leave the page as it was too. The string depends on nothing but the page and the
  string form of \<^verbatim>\<open>DocType()\<close>: not on the files, nor on what the prettifier or the
  operating system do. \<^verbatim>\<open>__str__\<close> and \<^verbatim>\<open>__repr__\<close> are this method.
\<close>

theorem render_is_pure:
  "\<exists>r. render E self = (r, self) \<and>
     render E (snd (render E self)) = (r, self) \<and>
     snd (doc_type E self) = self \<and> snd (html self) = self \<and>
     page_str E self = (r, self) \<and> page_repr E self = (r, self) \<and>
     snd (pretty E self arg encoding formatter) = self \<and>
     fst (snd (write_file E self filename os)) = self \<and>
     (\<forall>cs. (\<forall>c \<in> set cs. \<not> mutating c) \<longrightarrow>
        fst (run E cs (self, os)) = self \<and>
        render E (fst (run E cs (self, os))) = (r, self)) \<and>
     (\<forall>E'. DocType_str E' = DocType_str E \<longrightarrow> render E' self = (r, self))"
proof -
  obtain r where r: "render E self = (r, self)"
    using render_page [of E self] by (cases "render E self") simp
  have 1: "render E (snd (render E self)) = (r, self)"
    using r by simp
  have 2: "snd (doc_type E self) = self"
    by (simp add: doc_type_def)
  have 3: "snd (html self) = self"
    by (rule html_page)
  have 4: "page_str E self = (r, self)" and 5: "page_repr E self = (r, self)"
    using r by (simp_all add: page_str_def page_repr_def)
  have 6: "snd (pretty E self arg encoding formatter) = self"
    by (rule pretty_page)
  have 7: "fst (snd (write_file E self filename os)) = self"
    by (rule write_file_page)
  have 8: "\<forall>cs. (\<forall>c \<in> set cs. \<not> mutating c) \<longrightarrow>
        fst (run E cs (self, os)) = self \<and>
        render E (fst (run E cs (self, os))) = (r, self)"
  proof (intro allI impI)
    fix cs :: "call list"
    assume "\<forall>c \<in> set cs. \<not> mutating c"
    then have "fst (run E cs (self, os)) = self"
      by (rule run_not_mutating)
    with r show "fst (run E cs (self, os)) = self \<and>
        render E (fst (run E cs (self, os))) = (r, self)"
      by (simp only: simp_thms)
  qed
  have 9: "\<forall>E'. DocType_str E' = DocType_str E \<longrightarrow> render E' self = (r, self)"
  proof (intro allI impI)
    fix E' :: env
    assume "DocType_str E' = DocType_str E"
    then have "render E' self = render E self"
      by (simp only: render_def doc_type_def)
    with r show "render E' self = (r, self)" by (simp only:)
  qed
  show ?thesis
    by (rule exI [of _ r], intro conjI)
       (fact r, fact 1, fact 2, fact 3, fact 4, fact 5, fact 6, fact 7, fact 8, fact 9)
qed

theorem render_is_pure_witness:
  "render env0 page0 = render env0 (snd (render env0 page0)) \<and>
   snd (render env0 page0) = page0 \<and>
   fst (run env0 [Render, Write ''out.html'', Pretty None None ''minimal''] (page0, os0)) = page0 \<and>
   render env0 (fst (run env0 [Render, Write ''out.html'', Pretty None None ''minimal'']
     (page0, os0))) = render env0 page0"
proof -
  define cs where "cs = [Render, Write ''out.html'', Pretty None None ''minimal'']"
  from render_is_pure [of env0 page0 None None "''minimal''" "''out.html''" os0]
  obtain r where *: "render env0 page0 = (r, page0)"
    "render env0 (snd (render env0 page0)) = (r, page0)"
    "\<forall>cs. (\<forall>c \<in> set cs. \<not> mutating c) \<longrightarrow>
        fst (run env0 cs (page0, os0)) = page0 \<and>
        render env0 (fst (run env0 cs (page0, os0))) = (r, page0)"
    by (elim exE conjE) (rule that)
  have "\<forall>c \<in> set cs. \<not> mutating c" by (simp add: cs_def)
  with *(3) have "fst (run env0 cs (page0, os0)) = page0 \<and>
        render env0 (fst (run env0 cs (page0, os0))) = (r, page0)"
    by blast
  with *(1,2) show ?thesis
    unfolding cs_def by (simp del: run.simps)
qed

text \<open>
  C6. A page has a head attribute holding a Head and a body attribute holding a Body
  (neither is missing) from the end of the constructor on, after every sequence of
  calls of \<^verbatim>\<open>set_head\<close>, \<^verbatim>\<open>set_body\<close>, \<^verbatim>\<open>add_tag_to_head\<close>, \<^verbatim>\<open>add_tag_to_body\<close>, \<^verbatim>\<open>render\<close>,
  \<^verbatim>\<open>pretty\<close> and \<^verbatim>\<open>write\<close>, whether the calls return or raise. The constructor itself
  always returns a page.
\<close>

theorem page_always_owns_head_and_body:
  "\<exists>self. HTMLPage_init head_arg body_arg lang_arg = Inr self \<and>
     owns_head_body self \<and>
     (\<forall>cs os. owns_head_body (fst (run E cs (self, os))) \<and>
        head (fst (run E cs (self, os))) \<noteq> None \<and> body (fst (run E cs (self, os))) \<noteq> None)"
proof -
  obtain self where init: "HTMLPage_init head_arg body_arg lang_arg = Inr self"
    by (simp add: HTMLPage_init_eq)
  then have st: "page_state self" by (rule page_state.constructed)
  have "owns_head_body (fst (run E cs (self, os))) \<and>
        head (fst (run E cs (self, os))) \<noteq> None \<and> body (fst (run E cs (self, os))) \<noteq> None"
    for cs os
  proof -
    from st have "page_state (fst (run E cs (self, os)))"
      by (simp add: page_state_run)
    then have "wf_page (fst (run E cs (self, os)))" by (rule page_state_wf)
    then show ?thesis
      by (auto simp: wf_page_def owns_head_body_def split: option.splits)
  qed
  moreover from st have "owns_head_body self"
    using page_state_wf wf_page_def by blast
  ultimately show ?thesis using init by blast
qed

theorem page_always_owns_head_and_body_witness:
  "owns_head_body (fst (run env0
     [SetHead [Value (PyStr ''<title>t</title>'')] [], SetBody [] [(''tag_content'', ''x'')],
      AddTagToBody [Value (PyStr ''<p>hi</p>''), TheHead, TheBody, ThePage env0], Render, Pretty None None ''minimal'',
      Write ''/nonexistent-dir/out.html'', Write ''out.html''] (page0, os0)))"
proof -
  from page_always_owns_head_and_body [of PyNone PyNone "''en''" env0]
  have "\<forall>cs os. owns_head_body (fst (run env0 cs (page0, os)))"
    by (simp add: page0_constructed)
  then show ?thesis by blast
qed


section \<open>Pretty-printing and writing\<close>














section \<open>The language attribute in the output\<close>

lemma prefix_sep:
  assumes "c \<notin> set p"
  shows "prefix p (xs @ c # ys) \<longleftrightarrow> prefix p xs"
proof
  assume "prefix p (xs @ c # ys)"
  then consider "prefix p xs" | us where "p = xs @ us" "prefix us (c # ys)"
    by (auto simp: prefix_append)
  then show "prefix p xs"
  proof cases
    case 1
    then show ?thesis .
  next
    case 2
    with assms have "us = []" by (cases us) auto
    with 2 show ?thesis by simp
  qed
next
  assume "prefix p xs"
  then show "prefix p (xs @ c # ys)" by (rule prefix_prefix)
qed

lemma count_occ_sep:
  assumes "p \<noteq> []" and "c \<notin> set p"
  shows "count_occ p (xs @ c # ys) = count_occ p xs + count_occ p ys"
proof (induction xs)
  case Nil
  from assms have "\<not> prefix p (c # ys)"
    by (cases p) auto
  then show ?case by simp
next
  case (Cons x xs)
  from assms(2) have "prefix p ((x # xs) @ c # ys) \<longleftrightarrow> prefix p (x # xs)"
    by (rule prefix_sep)
  with Cons show ?case by simp
qed

lemma count_occ_short: "length xs < length p \<Longrightarrow> count_occ p xs = 0"
  by (induction xs) (auto dest: prefix_length_le)

lemma count_occ_self: "p \<noteq> [] \<Longrightarrow> count_occ p p = 1"
  by (cases p) (simp_all add: count_occ_short)

lemma lang_attr_chars:
  assumes "valid_lang l" and "c = CHR ''<'' \<or> c = CHR ''>'' \<or> c = CHR '' ''"
  shows "c \<notin> set (lang_attr l)"
proof -
  from assms(1) have "\<forall>x \<in> set l. lang_char x"
    by (simp add: valid_lang_def list_all_iff)
  moreover from assms(2) have "\<not> lang_char c"
    by (auto simp: lang_char_def)
  ultimately have "c \<notin> set l" by blast
  with assms(2) show ?thesis
    by (auto simp: lang_attr_def dq_def)
qed

lemma count_lang_attr_document:
  assumes "valid_lang l"
  shows "count_occ (lang_attr l) (d @ ''<html '' @ lang_attr l @ ''>'' @ hb @ ''</html>'') =
    count_occ (lang_attr l) d + 1 + count_occ (lang_attr l) hb"
proof -
  define p where "p = lang_attr l"
  have ne: "p \<noteq> []" by (simp add: p_def lang_attr_def)
  have len: "6 < length p" by (simp add: p_def lang_attr_def dq_def)
  have lt: "CHR ''<'' \<notin> set p" and gt: "CHR ''>'' \<notin> set p" and sp: "CHR '' '' \<notin> set p"
    using assms by (simp_all add: p_def lang_attr_chars)
  define t4 where "t4 = ''/html'' @ CHR ''>'' # []"
  define t3 where "t3 = hb @ CHR ''<'' # t4"
  define t2 where "t2 = p @ CHR ''>'' # t3"
  define t1 where "t1 = ''html'' @ CHR '' '' # t2"
  have doc: "d @ ''<html '' @ p @ ''>'' @ hb @ ''</html>'' = d @ CHR ''<'' # t1"
    by (simp add: t1_def t2_def t3_def t4_def)
  have c0: "count_occ p (d @ CHR ''<'' # t1) = count_occ p d + count_occ p t1"
    using ne lt by (rule count_occ_sep)
  have c1: "count_occ p t1 = count_occ p ''html'' + count_occ p t2"
    unfolding t1_def using ne sp by (rule count_occ_sep)
  have c2: "count_occ p t2 = count_occ p p + count_occ p t3"
    unfolding t2_def using ne gt by (rule count_occ_sep)
  have c3: "count_occ p t3 = count_occ p hb + count_occ p t4"
    unfolding t3_def using ne lt by (rule count_occ_sep)
  have c4: "count_occ p t4 = count_occ p ''/html'' + count_occ p []"
    unfolding t4_def using ne gt by (rule count_occ_sep)
  have z1: "count_occ p ''html'' = 0"
    by (rule count_occ_short) (use len in simp)
  have z2: "count_occ p ''/html'' = 0"
    by (rule count_occ_short) (use len in simp)
  have z3: "count_occ p [] = 0" by simp
  have one: "count_occ p p = 1"
    using ne by (rule count_occ_self)
  have "count_occ p (d @ ''<html '' @ p @ ''>'' @ hb @ ''</html>'') =
      count_occ p d + 1 + count_occ p hb"
    unfolding doc c0 c1 c2 c3 c4 z1 z2 z3 one by simp
  then show ?thesis by (simp only: p_def)
qed

text \<open>
  C9, as the code has it. For every page state with a valid language code L, the html
  element that \<^verbatim>\<open>render()\<close> emits has exactly one attribute, \<^verbatim>\<open>lang="L"\<close>: the output is the
  doctype, \<^verbatim>\<open><html lang="L">\<close>, the head, the body and \<^verbatim>\<open></html>\<close>. The head and body
  strings are copied as they are, so the number of places where \<^verbatim>\<open>lang="L"\<close> occurs in the
  output is one more than their number in the doctype and in the head and body strings;
  it is exactly one when these contain none.
\<close>

theorem render_lang_attribute:
  assumes "page_state self" and "valid_lang (lang self)"
  shows "\<exists>h b s. head self = Some h \<and> body self = Some b \<and>
     html self = (Inr (Html (Element_str h @ Element_str b) [(''lang'', lang self)]), self) \<and>
     render E self = (Inr s, self) \<and>
     s = DocType_str E @ ''<html '' @ lang_attr (lang self) @ ''>''
           @ Element_str h @ Element_str b @ ''</html>'' \<and>
     count_occ (lang_attr (lang self)) s =
       count_occ (lang_attr (lang self)) (DocType_str E) + 1
         + count_occ (lang_attr (lang self)) (Element_str h @ Element_str b) \<and>
     (count_occ (lang_attr (lang self)) (DocType_str E) = 0 \<and>
      count_occ (lang_attr (lang self)) (Element_str h @ Element_str b) = 0 \<longrightarrow>
        count_occ (lang_attr (lang self)) s = 1)"
proof -
  from assms(1) have wf: "wf_page self" by (rule page_state_wf)
  then obtain h b where hb: "head self = Some h" "body self = Some b"
    by (rule wf_page_attrs)
  define s where "s = DocType_str E @ ''<html '' @ lang_attr (lang self) @ ''>''
           @ (Element_str h @ Element_str b) @ ''</html>''"
  have "html self = (Inr (Html (Element_str h @ Element_str b) [(''lang'', lang self)]), self)"
    using hb by (simp add: html_def)
  moreover have "render E self = (Inr s, self)"
    using render_wf [OF wf hb, of E] by (simp add: Html_str s_def)
  moreover have "count_occ (lang_attr (lang self)) s =
       count_occ (lang_attr (lang self)) (DocType_str E) + 1
         + count_occ (lang_attr (lang self)) (Element_str h @ Element_str b)"
    unfolding s_def using assms(2) by (rule count_lang_attr_document)
  ultimately show ?thesis using hb by (simp add: s_def)
qed

lemma count_occ_page0:
  "count_occ (lang_attr ''en'') ''<!DOCTYPE html>'' = 0"
  "count_occ (lang_attr ''en'') ''<head>None</head><body>None</body>'' = 0"
  by (simp_all add: lang_attr_def dq_def)

theorem render_lang_attribute_witness:
  "page_state page0 \<and> valid_lang (lang page0) \<and>
   (\<exists>s. render env0 page0 = (Inr s, page0) \<and> count_occ (lang_attr ''en'') s = 1)"
proof -
  have v: "valid_lang (lang page0)"
    by (simp add: page0_def valid_lang_def lang_char_def)
  from render_lang_attribute [OF page0_state v, of env0]
  obtain h b s where *: "head page0 = Some h" "body page0 = Some b"
    "render env0 page0 = (Inr s, page0)"
    "count_occ (lang_attr (lang page0)) s =
       count_occ (lang_attr (lang page0)) (DocType_str env0) + 1
         + count_occ (lang_attr (lang page0)) (Element_str h @ Element_str b)"
    by (elim exE conjE) (rule that)
  from *(1,2) have "Element_str h @ Element_str b = ''<head>None</head><body>None</body>''"
    by (auto simp: page0_def Element_str_def Head_def Body_def)
  moreover have "lang page0 = ''en''" "DocType_str env0 = ''<!DOCTYPE html>''"
    by (simp_all add: page0_def env0_def)
  ultimately have "count_occ (lang_attr ''en'') s = 1"
    using *(4) by (simp only: count_occ_page0)
  with *(3) have "\<exists>s. render env0 page0 = (Inr s, page0) \<and> count_occ (lang_attr ''en'') s = 1"
    by blast
  with page0_state v show ?thesis by (intro conjI)
qed

text \<open>
  The claim as stated, exactly one \<^verbatim>\<open>lang="L"\<close> in the output for every head and body
  content, fails when the content itself carries the attribute: after
  \<^verbatim>\<open>add_tag_to_body('<p lang="en">x</p>')\<close> on an English page the output has two.
\<close>

lemma render_page1:
  "render env0 page1 =
     (Inr (''<!DOCTYPE html><html lang='' @ dq @ ''en'' @ dq
          @ ''><head>None</head><body>None<p lang='' @ dq @ ''en'' @ dq @ ''>x</p></body></html>''),
      page1)"
  by (simp add: render_def html_def doc_type_def page1_def page0_def env0_def Element_str_def
      Html_def Head_def Body_def lang_attr_def)

theorem render_one_lang_attribute_counterexample:
  "valid_lang ''en'' \<and>
   add_tag_to_body [Value (PyStr (''<p '' @ lang_attr ''en'' @ ''>x</p>''))] page0 =
     (Inr (Body (''None<p '' @ lang_attr ''en'' @ ''>x</p>'') []), page1) \<and>
   (case fst (render env0 page1) of Inl e \<Rightarrow> False | Inr s \<Rightarrow> count_occ (lang_attr ''en'') s = 2)"
proof -
  have "valid_lang ''en''"
    by (simp add: valid_lang_def lang_char_def)
  moreover have "add_tag_to_body [Value (PyStr (''<p '' @ lang_attr ''en'' @ ''>x</p>''))] page0 =
     (Inr (Body (''None<p '' @ lang_attr ''en'' @ ''>x</p>'') []), page1)"
    by (simp add: add_tag_to_body_def Value_def page1_def page0_def Body_def)
  moreover have "count_occ (lang_attr ''en'')
      (''<!DOCTYPE html><html lang='' @ dq @ ''en'' @ dq
          @ ''><head>None</head><body>None<p lang='' @ dq @ ''en'' @ dq @ ''>x</p></body></html>'') = 2"
    by (simp add: lang_attr_def dq_def)
  ultimately show ?thesis
    by (simp only: render_page1 fst_conv sum.case)
qed


end
